theory Spec2Isabelle
  imports Complex_Main "HOL-Library.AList" "HOL-Library.Log_Nat" "HOL-Library.Multiset"
begin

text \<open>
  A model of \<^verbatim>\<open>index.js\<close>, the functions of a shop backend: three HTTP handlers
  (\<^verbatim>\<open>/create-payment-intent\<close>, \<^verbatim>\<open>/process-order\<close>, \<^verbatim>\<open>/analytics\<close>) and the trigger
  that keeps the search index. A handler is a function from the state of the document
  store to its response and the new state; the payments provider and the token
  verification are parameters. A call to the store fails where its argument or the state
  makes it fail (a path that names no document, data with an undefined field, an update
  of a missing document); outages and the size limits of a request are not modelled.
\<close>

section \<open>JavaScript numbers\<close>

text \<open>
  The handlers of \<^verbatim>\<open>index.js\<close> compute with JavaScript numbers, which are IEEE 754
  binary64 values. A finite value is kept as the rational it denotes; the two infinities
  and NaN are separate constructors. The sign of zero is not represented (no expression
  of the source can tell the two zeros apart).
\<close>

datatype number = Fin rat | PosInf | NegInf | NaN

definition pow2 :: "int \<Rightarrow> rat" where
  "pow2 e = (if 0 \<le> e then 2 ^ nat e else 1 / 2 ^ nat (- e))"

text \<open>\<open>expo q\<close> is the binary exponent of a positive rational: \<open>2 ^ expo q \<le> q < 2 ^ (expo q + 1)\<close>.\<close>

definition expo :: "rat \<Rightarrow> int" where
  "expo q = (let (n, d) = quotient_of q; k = bitlen n - bitlen d
             in if pow2 k \<le> q then k else k - 1)"

text \<open>Rounding to the nearest integer, ties to the even one (the IEEE default mode).\<close>

definition rne :: "rat \<Rightarrow> int" where
  "rne q = (let f = \<lfloor>q\<rfloor>; r = q - of_int f
            in if r < 1 / 2 then f
               else if 1 / 2 < r then f + 1
               else if even f then f else f + 1)"

text \<open>
  The unit in the last place of the binary64 values around a positive rational: 53
  significant bits, and never below \<open>2 ^ - 1074\<close> (the subnormal range).
\<close>

definition ulp :: "rat \<Rightarrow> rat" where
  "ulp q = pow2 (max (expo q - 52) (- 1074))"

text \<open>Rounding of a positive rational to the nearest multiple of its unit in the last place.\<close>

definition fl_pos :: "rat \<Rightarrow> rat" where
  "fl_pos q = of_int (rne (q / ulp q)) * ulp q"

text \<open>The binary64 value nearest to a rational; a result of \<open>2 ^ 1024\<close> or more overflows.\<close>

definition fl :: "rat \<Rightarrow> number" where
  "fl q = (if q = 0 then Fin 0
           else if 0 < q then (let r = fl_pos q in if pow2 1024 \<le> r then PosInf else Fin r)
           else (let r = fl_pos (- q) in if pow2 1024 \<le> r then NegInf else Fin (- r)))"

text \<open>A number literal of a JSON body, given as the decimal it spells.\<close>

definition json_number :: "rat \<Rightarrow> number" where
  "json_number q = fl q"

text \<open>The operator \<^verbatim>\<open>*\<close> on numbers.\<close>

fun js_mul :: "number \<Rightarrow> number \<Rightarrow> number" where
  "js_mul NaN _ = NaN"
| "js_mul _ NaN = NaN"
| "js_mul (Fin a) (Fin b) = fl (a * b)"
| "js_mul (Fin a) PosInf = (if a = 0 then NaN else if 0 < a then PosInf else NegInf)"
| "js_mul (Fin a) NegInf = (if a = 0 then NaN else if 0 < a then NegInf else PosInf)"
| "js_mul PosInf (Fin b) = (if b = 0 then NaN else if 0 < b then PosInf else NegInf)"
| "js_mul NegInf (Fin b) = (if b = 0 then NaN else if 0 < b then NegInf else PosInf)"
| "js_mul PosInf PosInf = PosInf"
| "js_mul PosInf NegInf = NegInf"
| "js_mul NegInf PosInf = NegInf"
| "js_mul NegInf NegInf = PosInf"

text \<open>The operator \<^verbatim>\<open>+\<close> on numbers.\<close>

fun js_add :: "number \<Rightarrow> number \<Rightarrow> number" where
  "js_add NaN _ = NaN"
| "js_add _ NaN = NaN"
| "js_add (Fin a) (Fin b) = fl (a + b)"
| "js_add (Fin a) PosInf = PosInf"
| "js_add (Fin a) NegInf = NegInf"
| "js_add PosInf (Fin b) = PosInf"
| "js_add NegInf (Fin b) = NegInf"
| "js_add PosInf PosInf = PosInf"
| "js_add PosInf NegInf = NaN"
| "js_add NegInf PosInf = NaN"
| "js_add NegInf NegInf = NegInf"

text \<open>
  \<^verbatim>\<open>Math.round\<close>: the nearest integer, a tie going towards plus infinity; the infinities
  and NaN are returned as they are.
\<close>

fun Math_round :: "number \<Rightarrow> number" where
  "Math_round (Fin a) = Fin (of_int \<lfloor>a + 1 / 2\<rfloor>)"
| "Math_round n = n"

text \<open>The numbers that are binary64 values: rounding leaves them as they are.\<close>

fun is_binary64 :: "number \<Rightarrow> bool" where
  "is_binary64 (Fin q) = (fl q = Fin q)"
| "is_binary64 _ = True"

text \<open>Unary minus, the operator \<^verbatim>\<open>-\<close> on numbers, and the numbers greater than zero.\<close>

fun js_neg :: "number \<Rightarrow> number" where
  "js_neg (Fin a) = Fin (- a)"
| "js_neg PosInf = NegInf"
| "js_neg NegInf = PosInf"
| "js_neg NaN = NaN"

definition js_sub :: "number \<Rightarrow> number \<Rightarrow> number" where
  "js_sub a b = js_add a (js_neg b)"

fun is_positive :: "number \<Rightarrow> bool" where
  "is_positive (Fin a) = (0 < a)"
| "is_positive PosInf = True"
| "is_positive _ = False"

text \<open>Truthiness of a number: zero and NaN are falsy.\<close>

fun truthy_number :: "number \<Rightarrow> bool" where
  "truthy_number (Fin a) = (a \<noteq> 0)"
| "truthy_number NaN = False"
| "truthy_number _ = True"

section \<open>Strings\<close>

text \<open>
  A string is a list of bytes. \<^verbatim>\<open>String.prototype.toLowerCase\<close> is modelled on ASCII
  strings only, where it changes the letters \<open>A\<close>..\<open>Z\<close>; what JavaScript does to
  a cased character outside ASCII is not modelled, and the statements about lower-cased
  text below are made for ASCII strings.
\<close>

definition ascii :: "string \<Rightarrow> bool" where
  "ascii s = list_all (\<lambda>c. (of_char c :: nat) < 128) s"

definition lower_char :: "char \<Rightarrow> char" where
  "lower_char c = (let n = (of_char c :: nat) in if 65 \<le> n \<and> n \<le> 90 then char_of (n + 32) else c)"

definition toLowerCase :: "string \<Rightarrow> string" where
  "toLowerCase s = map lower_char s"

text \<open>\<^verbatim>\<open>s.split(' ')\<close>: the pieces of \<open>s\<close> between the occurrences of the separator.\<close>

fun split_at :: "char \<Rightarrow> string \<Rightarrow> string \<Rightarrow> string list" where
  "split_at sep acc [] = [rev acc]"
| "split_at sep acc (c # cs) =
     (if c = sep then rev acc # split_at sep [] cs else split_at sep (c # acc) cs)"

definition split :: "string \<Rightarrow> char \<Rightarrow> string list" where
  "split s sep = split_at sep [] s"

text \<open>Indexing an array: \<^verbatim>\<open>undefined\<close> (here \<open>None\<close>) out of range.\<close>

definition at_index :: "'a list \<Rightarrow> nat \<Rightarrow> 'a option" where
  "at_index xs i = (if i < length xs then Some (xs ! i) else None)"

section \<open>Values and their conversions\<close>

text \<open>
  \<^verbatim>\<open>Number.prototype.toString\<close>: the shortest decimal numeral that rounds to the number,
  written plainly when its decimal point lies within 21 digits to the right or 6 to the
  left, and with an exponent otherwise.
\<close>

definition pow10 :: "int \<Rightarrow> rat" where
  "pow10 e = (if 0 \<le> e then 10 ^ nat e else 1 / 10 ^ nat (- e))"

function declen :: "int \<Rightarrow> int" where
  "declen n = (if n \<le> 0 then 0 else declen (n div 10) + 1)"
  by pat_completeness auto
termination
  by (relation "measure nat") auto

text \<open>The decimal exponent \<open>n\<close> of a positive rational: \<open>10 ^ (n - 1) \<le> q < 10 ^ n\<close>.\<close>

definition dec_expo :: "rat \<Rightarrow> int" where
  "dec_expo q = (let (n, d) = quotient_of q; k = declen n - declen d
                 in if pow10 k \<le> q then k + 1 else k)"

definition digit_char :: "int \<Rightarrow> char" where
  "digit_char n = char_of (48 + n)"

function digits_of :: "int \<Rightarrow> string" where
  "digits_of n = (if n < 10 then [digit_char n] else digits_of (n div 10) @ [digit_char (n mod 10)])"
  by pat_completeness auto
termination
  by (relation "measure nat") auto

text \<open>
  The numeral of \<open>k\<close> digits for \<open>x\<close>, if one rounds to \<open>x\<close>: \<open>s * 10 ^ e\<close> with
  \<open>s\<close> next to \<open>x / 10 ^ e\<close>, the nearer one (the even one at equal distance) if both do.
\<close>

definition try_digits :: "rat \<Rightarrow> int \<Rightarrow> nat \<Rightarrow> (int \<times> int) option" where
  "try_digits x n k =
     (let e = n - int k;
          t = x / pow10 e;
          lo = \<lfloor>t\<rfloor>;
          hi = lo + 1;
          ok_lo = (0 < lo \<and> fl (of_int lo * pow10 e) = Fin x);
          ok_hi = (fl (of_int hi * pow10 e) = Fin x);
          nearer_lo = (t - of_int lo < of_int hi - t \<or> (t - of_int lo = of_int hi - t \<and> even lo))
      in if ok_lo \<and> (\<not> ok_hi \<or> nearer_lo) then Some (lo, e)
         else if ok_hi then Some (hi, e)
         else None)"

text \<open>The first number of digits, from \<open>k\<close> on, that gives a numeral; 17 digits always do.\<close>

fun shortest :: "rat \<Rightarrow> int \<Rightarrow> nat \<Rightarrow> nat \<Rightarrow> int \<times> int" where
  "shortest x n k 0 = (rne (x / pow10 (n - int k)), n - int k)"
| "shortest x n k (Suc fuel) =
     (case try_digits x n k of Some r \<Rightarrow> r | None \<Rightarrow> shortest x n (Suc k) fuel)"

function strip_zeros :: "int \<times> int \<Rightarrow> int \<times> int" where
  "strip_zeros (s, e) = (if 0 < s \<and> s mod 10 = 0 then strip_zeros (s div 10, e + 1) else (s, e))"
  by pat_completeness auto
termination
  by (relation "measure (\<lambda>(s, e). nat s)") auto

definition exponent_part :: "int \<Rightarrow> string" where
  "exponent_part e = CHR ''e'' # (if e < 0 then CHR ''-'' else CHR ''+'') # digits_of \<bar>e\<bar>"

definition positive_toString :: "rat \<Rightarrow> string" where
  "positive_toString x =
     (let (s, e) = strip_zeros (shortest x (dec_expo x) 1 16);
          ds = digits_of s;
          k = int (length ds);
          n = e + k
      in if k \<le> n \<and> n \<le> 21 then ds @ replicate (nat (n - k)) CHR ''0''
         else if 0 < n \<and> n \<le> 21 then take (nat n) ds @ ''.'' @ drop (nat n) ds
         else if - 6 < n \<and> n \<le> 0 then ''0.'' @ replicate (nat (- n)) CHR ''0'' @ ds
         else if k = 1 then ds @ exponent_part (n - 1)
         else hd ds # ''.'' @ tl ds @ exponent_part (n - 1))"

fun Number_toString :: "number \<Rightarrow> string" where
  "Number_toString NaN = ''NaN''"
| "Number_toString PosInf = ''Infinity''"
| "Number_toString NegInf = ''-Infinity''"
| "Number_toString (Fin x) =
     (if x = 0 then ''0'' else if x < 0 then CHR ''-'' # positive_toString (- x)
      else positive_toString x)"

text \<open>
  The values a field of a JSON body or of a document holds here: null, a boolean, a number
  or a string; \<^verbatim>\<open>undefined\<close> (a missing field) is \<open>None\<close> of an option. Arrays and maps
  as values of such a field are not modelled.
\<close>

datatype js_value = Null | Boolean bool | Num number | Str string

fun truthy :: "js_value \<Rightarrow> bool" where
  "truthy Null = False"
| "truthy (Boolean b) = b"
| "truthy (Num n) = truthy_number n"
| "truthy (Str s) = (s \<noteq> [])"

text \<open>\<open>ToNumber\<close> of a value that is not a string.\<close>

fun number_unless_string :: "js_value \<Rightarrow> number option" where
  "number_unless_string Null = Some (Fin 0)"
| "number_unless_string (Boolean b) = Some (if b then Fin 1 else Fin 0)"
| "number_unless_string (Num n) = Some n"
| "number_unless_string (Str s) = None"

fun ToString :: "js_value \<Rightarrow> string" where
  "ToString Null = ''null''"
| "ToString (Boolean b) = (if b then ''true'' else ''false'')"
| "ToString (Num n) = Number_toString n"
| "ToString (Str s) = s"

text \<open>
  The operator \<^verbatim>\<open>+\<close> on values: it adds the numbers of the two sides unless a side
  is a string, and then concatenates the strings of both.
\<close>

definition js_plus :: "js_value \<Rightarrow> js_value \<Rightarrow> js_value" where
  "js_plus a b =
     (case (number_unless_string a, number_unless_string b) of
        (Some x, Some y) \<Rightarrow> Num (js_add x y)
      | _ \<Rightarrow> Str (ToString a @ ToString b))"

section \<open>Documents and collections\<close>

type_synonym doc_id = string

text \<open>
  A \<^verbatim>\<open>Timestamp\<close> of the store: seconds since the epoch and nanoseconds. The store keeps
  the seconds from year 1 to year 9999 and the nanoseconds below \<open>10 ^ 9\<close>.
\<close>

record timestamp =
  seconds :: int
  nanoseconds :: int

definition valid_timestamp :: "timestamp \<Rightarrow> bool" where
  "valid_timestamp t =
     (- 62135596800 \<le> seconds t \<and> seconds t \<le> 253402300799
      \<and> 0 \<le> nanoseconds t \<and> nanoseconds t < 1000000000)"

text \<open>
  Arithmetic on a \<^verbatim>\<open>Timestamp\<close> goes through its \<^verbatim>\<open>valueOf\<close>, the string of the seconds
  since year 1 (12 digits), a point and the nanoseconds (9 digits); the operator \<^verbatim>\<open>-\<close>
  reads that numeral as a number, so it gets the binary64 value nearest to it.
\<close>

definition decimal_seconds :: "timestamp \<Rightarrow> rat" where
  "decimal_seconds t = of_int (seconds t + 62135596800) + of_int (nanoseconds t) / 1000000000"

definition Timestamp_number :: "timestamp \<Rightarrow> number" where
  "Timestamp_number t = fl (decimal_seconds t)"

text \<open>
  An item of an order is taken to hold a string \<^verbatim>\<open>productId\<close> and an integer
  \<^verbatim>\<open>quantity\<close>.
\<close>

record item =
  productId :: string
  quantity :: int

text \<open>
  A stored order. Its \<^verbatim>\<open>total\<close> is whatever was written: the order handler stores the
  value of the body unchecked, and \<^verbatim>\<open>doc.data().total || 0\<close> expects a document without
  one. \<^verbatim>\<open>createdAt\<close> and \<^verbatim>\<open>updatedAt\<close> are timestamps, as the order handler writes
  them.
\<close>

record order_doc =
  userId :: string
  items :: "item list"
  total :: "js_value option"
  shippingAddress :: string
  paymentIntentId :: string
  order_status :: string
  createdAt :: timestamp
  updatedAt :: timestamp

text \<open>
  A product as the search-index trigger reads it: \<^verbatim>\<open>name\<close>, \<^verbatim>\<open>category\<close>,
  \<^verbatim>\<open>description\<close>, \<^verbatim>\<open>tags\<close> and \<^verbatim>\<open>images\<close> are reached through \<^verbatim>\<open>?.\<close> or \<^verbatim>\<open>||\<close>
  and may be missing (\<open>None\<close>).
\<close>

record product_doc =
  name :: "string option"
  category :: "string option"
  description :: "string option"
  tags :: "string list option"
  price :: number
  images :: "string list option"
  stock :: int

record user_doc =
  email :: string
  role :: "string option"

text \<open>
  The data handed to \<^verbatim>\<open>set\<close> by the search-index trigger; a field holding
  \<^verbatim>\<open>undefined\<close> is \<open>None\<close>.
\<close>

record search_doc =
  si_productId :: doc_id
  si_name :: "string option"
  si_category :: "string option"
  si_price :: number
  si_image :: "string option"
  si_searchTerms :: "string list"
  si_updatedAt :: timestamp

text \<open>A collection is the list of its documents with their ids.\<close>

type_synonym 'd collection = "(doc_id \<times> 'd) list"

definition doc_get :: "'d collection \<Rightarrow> doc_id \<Rightarrow> 'd option" where
  "doc_get c k = map_of c k"

definition doc_exists :: "'d collection \<Rightarrow> doc_id \<Rightarrow> bool" where
  "doc_exists c k = (map_of c k \<noteq> None)"

text \<open>
  The id that \<^verbatim>\<open>add\<close> gives a new document is generated by the store and differs from
  every id in the collection: here a string longer than each of them.
\<close>

definition auto_id :: "'d collection \<Rightarrow> doc_id" where
  "auto_id c = replicate (Suc (foldr (\<lambda>kv n. max (length (fst kv)) n) c 0)) CHR ''0''"

subsection \<open>References to documents\<close>

text \<open>
  \<^verbatim>\<open>collection.doc(path)\<close> takes a string from the caller. It throws when the string is
  empty or contains \<^verbatim>\<open>//\<close>, and when the path, cut at the slashes, does not have an odd
  number of parts (so that it names a document under the collection). A single part names
  a document of the collection; three or more name a document of a subcollection, and the
  world below holds none.
\<close>

fun double_slash :: "string \<Rightarrow> bool" where
  "double_slash (a # b # cs) = ((a = CHR ''/'' \<and> b = CHR ''/'') \<or> double_slash (b # cs))"
| "double_slash _ = False"

definition components :: "string \<Rightarrow> string list" where
  "components s = filter (\<lambda>c. c \<noteq> []) (split s CHR ''/'')"

datatype doc_ref = Bad_path | Doc doc_id | Elsewhere

definition doc_ref :: "string \<Rightarrow> doc_ref" where
  "doc_ref s =
     (if s = [] \<or> double_slash s then Bad_path
      else case components s of
             [k] \<Rightarrow> Doc k
           | cs \<Rightarrow> if odd (length cs) then Elsewhere else Bad_path)"

text \<open>The message of an error of the store is kept in short.\<close>

definition bad_path :: string where
  "bad_path = ''Value for argument documentPath is not a valid resource path''"

text \<open>
  The store itself refuses a document id that is \<^verbatim>\<open>.\<close> or \<^verbatim>\<open>..\<close>, that matches
  \<^verbatim>\<open>__.*__\<close> or that is longer than 1500 bytes: a call on such a document fails.
\<close>

definition reserved_id :: "string \<Rightarrow> bool" where
  "reserved_id k = (4 \<le> length k \<and> take 2 k = ''__'' \<and> drop (length k - 2) k = ''__'')"

definition store_accepts :: "doc_id \<Rightarrow> bool" where
  "store_accepts k = (k \<noteq> ''.'' \<and> k \<noteq> ''..'' \<and> \<not> reserved_id k \<and> length k \<le> 1500)"

definition invalid_argument :: string where
  "invalid_argument = ''INVALID_ARGUMENT: Invalid document name''"

text \<open>The strings that are the id of a document of a collection, and that the store accepts.\<close>

definition valid_id :: "string \<Rightarrow> bool" where
  "valid_id s = (s \<noteq> [] \<and> CHR ''/'' \<notin> set s \<and> store_accepts s)"

section \<open>The external services and the calls made to them\<close>

record payment_intent =
  pi_id :: string
  pi_status :: string
  client_secret :: string

record create_params =
  cp_amount :: number
  cp_currency :: string
  cp_orderId :: "string option"

text \<open>
  The payments provider and the token verification answer with a value or throw an error,
  whose message is the \<open>Inl\<close> part; an argument that is \<^verbatim>\<open>undefined\<close> is \<open>None\<close>. The
  uid of a verified token is taken to be the id of a document (the identity service gives
  it, not the caller). \<open>server_time\<close> is the value the store puts for
  \<^verbatim>\<open>FieldValue.serverTimestamp()\<close>.
\<close>

record env =
  stripe_create :: "create_params \<Rightarrow> string + payment_intent"
  stripe_retrieve :: "string option \<Rightarrow> string + payment_intent"
  verifyIdToken :: "string option \<Rightarrow> string + doc_id"
  server_time :: timestamp

text \<open>
  A batch is the list of its writes; the order handler only queues
  \<^verbatim>\<open>update(ref, {stock: FieldValue.increment(n)})\<close>, kept as the reference and \<open>n\<close>.
  Quantities and stock are integers; the 64-bit range of the store is not modelled.
\<close>

type_synonym batch = "(doc_ref \<times> int) list"

text \<open>Every call to a service is recorded, in order, in the trace of the world.\<close>

datatype event =
    Stripe_create create_params
  | Stripe_retrieve "string option"
  | Verify_token "string option"
  | Doc_get string doc_id
  | Collection_get string
  | Doc_add string doc_id
  | Batch_commit batch
  | Doc_delete string string
  | Doc_set string doc_id

fun is_write :: "event \<Rightarrow> bool" where
  "is_write (Doc_add _ _) = True"
| "is_write (Batch_commit _) = True"
| "is_write (Doc_delete _ _) = True"
| "is_write (Doc_set _ _) = True"
| "is_write _ = False"


record world =
  orders :: "order_doc collection"
  products :: "product_doc collection"
  carts :: "(item list) collection"
  users :: "user_doc collection"
  search_index :: "search_doc collection"
  trace :: "event list"

definition emit :: "event \<Rightarrow> world \<Rightarrow> world" where
  "emit ev w = w\<lparr>trace := trace w @ [ev]\<rparr>"

record analytics =
  totalOrders :: nat
  totalProducts :: nat
  totalUsers :: nat
  totalRevenue :: js_value
  recentOrders :: "(doc_id \<times> order_doc) list"

datatype body =
    ClientSecret string
  | ErrorBody string
  | OrderPlaced doc_id string
  | Analytics analytics

record response =
  status_code :: nat
  body :: body

text \<open>
  Unless \<^verbatim>\<open>ignoreUndefinedProperties\<close> is set, the client of the store refuses data with
  a field that is \<^verbatim>\<open>undefined\<close> (``Cannot use "undefined" as a Firestore value''): the
  call throws and nothing is written. \<^verbatim>\<open>index.js\<close> takes the client as
  \<^verbatim>\<open>admin.firestore()\<close> gives it and never changes its settings, so the option has its
  default.
\<close>

definition ignoreUndefinedProperties :: bool where
  "ignoreUndefinedProperties = False"

definition undefined_value :: string where
  "undefined_value = ''Cannot use undefined as a Firestore value''"

section \<open>The store operations used by the order handler\<close>

text \<open>
  \<^verbatim>\<open>db.collection('orders').add(data)\<close>: a new document under a generated id. The data
  is \<open>None\<close> when one of its fields is undefined, and is refused then.
\<close>

definition orders_add :: "order_doc option \<Rightarrow> world \<Rightarrow> (string + doc_id) \<times> world" where
  "orders_add data w =
     (case data of
        None \<Rightarrow> (Inl undefined_value, w)
      | Some d \<Rightarrow>
          (let k = auto_id (orders w)
           in (Inr k, emit (Doc_add ''orders'' k) (w\<lparr>orders := orders w @ [(k, d)]\<rparr>))))"

definition increment_stock :: "int \<Rightarrow> product_doc \<Rightarrow> product_doc" where
  "increment_stock n p = p\<lparr>stock := stock p + n\<rparr>"

fun apply_update :: "doc_ref \<times> int \<Rightarrow> product_doc collection \<Rightarrow> product_doc collection" where
  "apply_update (Doc k, n) c = AList.map_entry k (increment_stock n) c"
| "apply_update (_, n) c = c"

primrec apply_updates :: "batch \<Rightarrow> product_doc collection \<Rightarrow> product_doc collection" where
  "apply_updates [] c = c"
| "apply_updates (u # us) c = apply_updates us (apply_update u c)"

text \<open>
  \<^verbatim>\<open>batch.commit()\<close> is atomic, and an \<^verbatim>\<open>update\<close> fails on a document that does not
  exist or whose id the store refuses: then the commit is rejected and nothing is written.
\<close>

definition not_found :: string where
  "not_found = ''NOT_FOUND: No document to update''"

fun update_error :: "product_doc collection \<Rightarrow> doc_ref \<Rightarrow> string option" where
  "update_error c (Doc k) =
     (if \<not> store_accepts k then Some invalid_argument
      else if doc_exists c k then None else Some not_found)"
| "update_error c _ = Some not_found"

primrec first_error :: "product_doc collection \<Rightarrow> batch \<Rightarrow> string option" where
  "first_error c [] = None"
| "first_error c (u # us) =
     (case update_error c (fst u) of None \<Rightarrow> first_error c us | Some msg \<Rightarrow> Some msg)"

definition batch_commit :: "batch \<Rightarrow> world \<Rightarrow> (string + unit) \<times> world" where
  "batch_commit b w =
     (let w1 = emit (Batch_commit b) w
      in case first_error (products w) b of
           Some msg \<Rightarrow> (Inl msg, w1)
         | None \<Rightarrow> (Inr (), w1\<lparr>products := apply_updates b (products w)\<rparr>))"

text \<open>
  \<^verbatim>\<open>db.collection('carts').doc(userId).delete()\<close>. \<^verbatim>\<open>doc\<close> throws on an undefined
  \<^verbatim>\<open>userId\<close> and on a bad path; deleting a document that does not exist succeeds.
\<close>

definition carts_delete :: "string option \<Rightarrow> world \<Rightarrow> (string + unit) \<times> world" where
  "carts_delete uid w =
     (case uid of
        None \<Rightarrow> (Inl bad_path, w)
      | Some s \<Rightarrow>
          (case doc_ref s of
             Bad_path \<Rightarrow> (Inl bad_path, w)
           | Elsewhere \<Rightarrow> (Inr (), emit (Doc_delete ''carts'' s) w)
           | Doc k \<Rightarrow>
               if store_accepts k
               then (Inr (), emit (Doc_delete ''carts'' s) (w\<lparr>carts := AList.delete k (carts w)\<rparr>))
               else (Inl invalid_argument, emit (Doc_delete ''carts'' s) w)))"

section \<open>POST /process-order\<close>

text \<open>
  The body of the request; a field it does not hold is \<open>None\<close>. A field it holds is
  taken to have the type the handler expects: strings for the ids, a list of items;
  \<^verbatim>\<open>null\<close> in their place is not represented. The shipping address, whatever its
  shape, is only stored, and is kept as a string.
\<close>

record order_request =
  req_userId :: "string option"
  req_items :: "item list option"
  req_total :: "js_value option"
  req_shippingAddress :: "string option"
  req_paymentIntentId :: "string option"

text \<open>
  The loop \<^verbatim>\<open>for (const item of items) batch.update(db.collection('products').doc(...), ...)\<close>;
  \<^verbatim>\<open>doc\<close> throws on a bad path.
\<close>

primrec queue_updates :: "item list \<Rightarrow> batch \<Rightarrow> string + batch" where
  "queue_updates [] b = Inr b"
| "queue_updates (it # its) b =
     (case doc_ref (productId it) of
        Bad_path \<Rightarrow> Inl bad_path
      | productRef \<Rightarrow> queue_updates its (b @ [(productRef, - quantity it)]))"

definition not_iterable :: string where
  "not_iterable = ''items is not iterable''"

text \<open>
  The data given to \<^verbatim>\<open>add\<close>: the five fields of the body, the status and the two server
  timestamps. It is \<open>None\<close> when a field of the body is undefined.
\<close>

definition new_order :: "env \<Rightarrow> order_request \<Rightarrow> order_doc option" where
  "new_order e r =
     (case (req_userId r, req_items r, req_total r, req_shippingAddress r, req_paymentIntentId r) of
        (Some u, Some its, Some t, Some a, Some p) \<Rightarrow>
          Some \<lparr>userId = u, items = its, total = Some t, shippingAddress = a, paymentIntentId = p,
                order_status = ''confirmed'', createdAt = server_time e, updatedAt = server_time e\<rparr>
      | _ \<Rightarrow> None)"

definition failed :: "string \<Rightarrow> response" where
  "failed msg = \<lparr>status_code = 500, body = ErrorBody msg\<rparr>"

definition process_order :: "env \<Rightarrow> order_request \<Rightarrow> world \<Rightarrow> response \<times> world" where
  "process_order e r w =
     (let w1 = emit (Stripe_retrieve (req_paymentIntentId r)) w
      in case stripe_retrieve e (req_paymentIntentId r) of
           Inl msg \<Rightarrow> (failed msg, w1)
         | Inr paymentIntent \<Rightarrow>
             if pi_status paymentIntent \<noteq> ''succeeded''
             then (\<lparr>status_code = 400, body = ErrorBody ''Payment not completed''\<rparr>, w1)
             else
               (case orders_add (new_order e r) w1 of
                  (Inl msg, w2) \<Rightarrow> (failed msg, w2)
                | (Inr orderRef, w2) \<Rightarrow>
                    (case req_items r of
                       None \<Rightarrow> (failed not_iterable, w2)
                     | Some its \<Rightarrow>
                         (case queue_updates its [] of
                            Inl msg \<Rightarrow> (failed msg, w2)
                          | Inr b \<Rightarrow>
                              (case batch_commit b w2 of
                                 (Inl msg, w3) \<Rightarrow> (failed msg, w3)
                               | (Inr _, w3) \<Rightarrow>
                                   (case carts_delete (req_userId r) w3 of
                                      (Inl msg, w4) \<Rightarrow> (failed msg, w4)
                                    | (Inr _, w4) \<Rightarrow>
                                        (\<lparr>status_code = 200,
                                          body = OrderPlaced orderRef ''success''\<rparr>, w4)))))))"

text \<open>
  The quantity of product \<open>p\<close> that a list of items orders: the sum of the quantities
  of the items that name \<open>p\<close>.
\<close>

definition ordered :: "doc_id \<Rightarrow> item list \<Rightarrow> int" where
  "ordered p its = sum_list (map quantity (filter (\<lambda>it. productId it = p) its))"

section \<open>POST /create-payment-intent\<close>

record payment_request =
  pr_amount :: number
  pr_currency :: "string option"
  pr_orderId :: "string option"

text \<open>
  The parameters of \<^verbatim>\<open>stripe.paymentIntents.create\<close>: the amount is
  \<^verbatim>\<open>Math.round(amount * 100)\<close>, the currency defaults to \<^verbatim>\<open>usd\<close> when the body has none.
\<close>

definition intent_params :: "payment_request \<Rightarrow> create_params" where
  "intent_params r =
     \<lparr>cp_amount = Math_round (js_mul (pr_amount r) (Fin 100)),
      cp_currency = (case pr_currency r of None \<Rightarrow> ''usd'' | Some c \<Rightarrow> c),
      cp_orderId = pr_orderId r\<rparr>"

definition create_payment_intent :: "env \<Rightarrow> payment_request \<Rightarrow> world \<Rightarrow> response \<times> world" where
  "create_payment_intent e r w =
     (let w1 = emit (Stripe_create (intent_params r)) w
      in case stripe_create e (intent_params r) of
           Inl msg \<Rightarrow> (\<lparr>status_code = 500, body = ErrorBody msg\<rparr>, w1)
         | Inr paymentIntent \<Rightarrow>
             (\<lparr>status_code = 200, body = ClientSecret (client_secret paymentIntent)\<rparr>, w1))"

section \<open>GET /analytics\<close>

record analytics_request =
  authorization :: "string option"

text \<open>\<^verbatim>\<open>req.headers.authorization?.split(' ')[1]\<close>\<close>

definition bearer_token :: "analytics_request \<Rightarrow> string option" where
  "bearer_token r =
     (case authorization r of None \<Rightarrow> None | Some h \<Rightarrow> at_index (split h CHR '' '') 1)"

definition users_doc_get :: "doc_id \<Rightarrow> world \<Rightarrow> user_doc option \<times> world" where
  "users_doc_get k w = (doc_get (users w) k, emit (Doc_get ''users'' k) w)"

definition orders_get :: "world \<Rightarrow> order_doc collection \<times> world" where
  "orders_get w = (orders w, emit (Collection_get ''orders'') w)"

definition products_get :: "world \<Rightarrow> product_doc collection \<times> world" where
  "products_get w = (products w, emit (Collection_get ''products'') w)"

definition users_get :: "world \<Rightarrow> user_doc collection \<times> world" where
  "users_get w = (users w, emit (Collection_get ''users'') w)"

text \<open>\<^verbatim>\<open>doc.data().total || 0\<close>\<close>

fun total_or_zero :: "js_value option \<Rightarrow> js_value" where
  "total_or_zero None = Num (Fin 0)"
| "total_or_zero (Some v) = (if truthy v then v else Num (Fin 0))"

text \<open>\<^verbatim>\<open>docs.reduce((sum, doc) => sum + (doc.data().total || 0), 0)\<close>\<close>

definition revenue :: "order_doc collection \<Rightarrow> js_value" where
  "revenue docs = foldl (\<lambda>sum doc. js_plus sum (total_or_zero (total (snd doc)))) (Num (Fin 0)) docs"

text \<open>
  \<^verbatim>\<open>Array.prototype.sort\<close> with a comparison function is a stable sort: \<open>a\<close> stays
  before \<open>b\<close> unless the comparison of \<open>a\<close> with \<open>b\<close> is greater than zero. It is
  modelled as insertion from the right, which gives that result for a consistent
  comparison.
\<close>

fun insert_by :: "('a \<Rightarrow> 'a \<Rightarrow> number) \<Rightarrow> 'a \<Rightarrow> 'a list \<Rightarrow> 'a list" where
  "insert_by cmp x [] = [x]"
| "insert_by cmp x (y # ys) =
     (if is_positive (cmp x y) then y # insert_by cmp x ys else x # y # ys)"

definition js_sort :: "('a \<Rightarrow> 'a \<Rightarrow> number) \<Rightarrow> 'a list \<Rightarrow> 'a list" where
  "js_sort cmp xs = foldr (insert_by cmp) xs []"

text \<open>
  The comparison \<^verbatim>\<open>(a, b) => b.data().createdAt - a.data().createdAt\<close>: the difference
  of the binary64 numbers of the two timestamps.
\<close>

definition by_createdAt_desc :: "doc_id \<times> order_doc \<Rightarrow> doc_id \<times> order_doc \<Rightarrow> number" where
  "by_createdAt_desc a b =
     js_sub (Timestamp_number (createdAt (snd b))) (Timestamp_number (createdAt (snd a)))"

text \<open>\<^verbatim>\<open>docs.sort(...).slice(0, 10).map(doc => ({ id: doc.id, ...doc.data() }))\<close>\<close>

definition recent :: "order_doc collection \<Rightarrow> (doc_id \<times> order_doc) list" where
  "recent docs = map (\<lambda>doc. (fst doc, snd doc)) (take 10 (js_sort by_createdAt_desc docs))"

definition summary ::
  "order_doc collection \<Rightarrow> product_doc collection \<Rightarrow> user_doc collection \<Rightarrow> analytics" where
  "summary ordersSnapshot productsSnapshot usersSnapshot =
     \<lparr>totalOrders = length ordersSnapshot,
      totalProducts = length productsSnapshot,
      totalUsers = length usersSnapshot,
      totalRevenue = revenue ordersSnapshot,
      recentOrders = recent ordersSnapshot\<rparr>"

text \<open>
  The totals that count, in the words of the specification: the \<^verbatim>\<open>total\<close> fields that
  are truthy numbers, in the order of the documents. \<open>numeric\<close> says that a total is
  a number whenever it is truthy.
\<close>

fun numeric :: "js_value option \<Rightarrow> bool" where
  "numeric None = True"
| "numeric (Some (Num n)) = True"
| "numeric (Some v) = (\<not> truthy v)"

primrec truthy_totals :: "order_doc collection \<Rightarrow> number list" where
  "truthy_totals [] = []"
| "truthy_totals (d # ds) =
     (case total (snd d) of
        Some (Num n) \<Rightarrow> if truthy_number n then n # truthy_totals ds else truthy_totals ds
      | _ \<Rightarrow> truthy_totals ds)"

text \<open>
  The creation time as the comparison sees it: the rational of the binary64 number of
  the timestamp.
\<close>

definition seen :: "doc_id \<times> order_doc \<Rightarrow> rat" where
  "seen x = (case Timestamp_number (createdAt (snd x)) of Fin q \<Rightarrow> q | _ \<Rightarrow> 0)"

definition newer_first :: "doc_id \<times> order_doc \<Rightarrow> doc_id \<times> order_doc \<Rightarrow> bool" where
  "newer_first x y = (seen y \<le> seen x)"

definition forbidden :: response where
  "forbidden = \<lparr>status_code = 403, body = ErrorBody ''Unauthorized''\<rparr>"

definition get_analytics :: "env \<Rightarrow> analytics_request \<Rightarrow> world \<Rightarrow> response \<times> world" where
  "get_analytics e r w =
     (let token = bearer_token r;
          w1 = emit (Verify_token token) w
      in case verifyIdToken e token of
           Inl msg \<Rightarrow> (\<lparr>status_code = 500, body = ErrorBody msg\<rparr>, w1)
         | Inr uid \<Rightarrow>
             (let (userDoc, w2) = users_doc_get uid w1
              in case userDoc of
                   None \<Rightarrow> (forbidden, w2)
                 | Some u \<Rightarrow>
                     if role u \<noteq> Some ''admin'' then (forbidden, w2)
                     else
                       (let (ordersSnapshot, w3) = orders_get w2;
                            (productsSnapshot, w4) = products_get w3;
                            (usersSnapshot, w5) = users_get w4
                        in (\<lparr>status_code = 200,
                             body = Analytics (summary ordersSnapshot productsSnapshot usersSnapshot)\<rparr>,
                            w5))))"

section \<open>The trigger on products/{productId}\<close>

record change =
  before :: "product_doc option"
  after :: "product_doc option"

text \<open>\<^verbatim>\<open>[...].filter(Boolean)\<close> on strings that may be undefined: the non-empty strings stay.\<close>

primrec filter_Boolean :: "string option list \<Rightarrow> string list" where
  "filter_Boolean [] = []"
| "filter_Boolean (v # vs) =
     (case v of None \<Rightarrow> filter_Boolean vs
      | Some s \<Rightarrow> if s = [] then filter_Boolean vs else s # filter_Boolean vs)"

definition searchTerms :: "product_doc \<Rightarrow> string list" where
  "searchTerms product =
     filter_Boolean
       ([map_option toLowerCase (name product),
         map_option toLowerCase (category product),
         map_option toLowerCase (description product)]
        @ map (\<lambda>tag. Some (toLowerCase tag)) (case tags product of None \<Rightarrow> [] | Some ts \<Rightarrow> ts))"

definition index_entry :: "env \<Rightarrow> doc_id \<Rightarrow> product_doc \<Rightarrow> search_doc" where
  "index_entry e k product =
     \<lparr>si_productId = k,
      si_name = name product,
      si_category = category product,
      si_price = price product,
      si_image = (case images product of None \<Rightarrow> None | Some is \<Rightarrow> at_index is 0),
      si_searchTerms = searchTerms product,
      si_updatedAt = server_time e\<rparr>"

text \<open>
  \<^verbatim>\<open>set\<close> replaces or creates the document, unless the data has an undefined field and
  is refused (see \<open>ignoreUndefinedProperties\<close>). The id comes from the path of the
  event, so it names a document.
\<close>

definition has_undefined :: "search_doc \<Rightarrow> bool" where
  "has_undefined d = (si_name d = None \<or> si_category d = None \<or> si_image d = None)"

definition search_index_set :: "doc_id \<Rightarrow> search_doc \<Rightarrow> world \<Rightarrow> (string + unit) \<times> world" where
  "search_index_set k d w =
     (let w1 = emit (Doc_set ''search_index'' k) w
      in if has_undefined d \<and> \<not> ignoreUndefinedProperties then (Inl undefined_value, w1)
         else (Inr (), w1\<lparr>search_index := AList.update k d (search_index w)\<rparr>))"

definition search_index_delete :: "doc_id \<Rightarrow> world \<Rightarrow> (string + unit) \<times> world" where
  "search_index_delete k w =
     (Inr (), emit (Doc_delete ''search_index'' k)
                (w\<lparr>search_index := AList.delete k (search_index w)\<rparr>))"

definition updateSearchIndex :: "env \<Rightarrow> doc_id \<Rightarrow> change \<Rightarrow> world \<Rightarrow> (string + unit) \<times> world" where
  "updateSearchIndex e k ch w =
     (case after ch of
        None \<Rightarrow> search_index_delete k w
      | Some product \<Rightarrow> search_index_set k (index_entry e k product) w)"

text \<open>
  The search terms in the words of the specification: the name, category, description and
  tags that are present and not empty, lower-cased.
\<close>

definition present :: "string option \<Rightarrow> string list" where
  "present v = (case v of None \<Rightarrow> [] | Some s \<Rightarrow> [s])"

definition spec_terms :: "product_doc \<Rightarrow> string list" where
  "spec_terms product =
     map toLowerCase
       (filter (\<lambda>s. s \<noteq> [])
          (present (name product) @ present (category product) @ present (description product)
           @ (case tags product of None \<Rightarrow> [] | Some ts \<Rightarrow> ts)))"

text \<open>The products whose name, category, description and tags are ASCII strings.\<close>

definition ascii_product :: "product_doc \<Rightarrow> bool" where
  "ascii_product product =
     list_all ascii
       (present (name product) @ present (category product) @ present (description product)
        @ (case tags product of None \<Rightarrow> [] | Some ts \<Rightarrow> ts))"

section \<open>Example data\<close>

definition paid_intent :: payment_intent where
  "paid_intent = \<lparr>pi_id = ''pi_1'', pi_status = ''succeeded'', client_secret = ''cs_1''\<rparr>"

definition pending_intent :: payment_intent where
  "pending_intent =
     \<lparr>pi_id = ''pi_2'', pi_status = ''requires_payment_method'', client_secret = ''cs_2''\<rparr>"

definition demo_create :: "create_params \<Rightarrow> string + payment_intent" where
  "demo_create p =
     (case cp_amount p of
        Fin a \<Rightarrow>
          if 1 \<le> a
          then Inr \<lparr>pi_id = ''pi_3'', pi_status = ''requires_payment_method'', client_secret = ''cs_3''\<rparr>
          else Inl ''Invalid positive integer''
      | _ \<Rightarrow> Inl ''Invalid integer'')"

definition demo_retrieve :: "string option \<Rightarrow> string + payment_intent" where
  "demo_retrieve k =
     (if k = Some ''pi_1'' then Inr paid_intent
      else if k = Some ''pi_2'' then Inr pending_intent
      else Inl ''No such payment_intent'')"

definition demo_verify :: "string option \<Rightarrow> string + doc_id" where
  "demo_verify t =
     (if t = Some ''tok_admin'' then Inr ''u1''
      else if t = Some ''tok_user'' then Inr ''u2''
      else if t = Some ''tok_gone'' then Inr ''u9''
      else Inl ''Decoding Firebase ID token failed'')"

definition demo_env :: env where
  "demo_env =
     \<lparr>stripe_create = demo_create, stripe_retrieve = demo_retrieve,
      verifyIdToken = demo_verify, server_time = \<lparr>seconds = 1700000000, nanoseconds = 0\<rparr>\<rparr>"

definition mug :: product_doc where
  "mug = \<lparr>name = Some ''Mug'', category = Some ''Kitchen'', description = None,
          tags = Some [''a'', ''B''], price = Fin 12, images = Some [''mug.png''], stock = 5\<rparr>"

definition lamp :: product_doc where
  "lamp = \<lparr>name = Some ''Lamp'', category = Some ''Home'', description = Some ''Desk LAMP'',
           tags = Some [], price = Fin 30, images = Some [], stock = 7\<rparr>"

definition demo_world :: world where
  "demo_world =
     \<lparr>orders = [],
      products = [(''p1'', mug), (''p2'', lamp)],
      carts = [(''u2'', [\<lparr>productId = ''p1'', quantity = 2\<rparr>])],
      users = [(''u1'', \<lparr>email = ''root@shop.example'', role = Some ''admin''\<rparr>),
               (''u2'', \<lparr>email = ''kim@shop.example'', role = Some ''customer''\<rparr>)],
      search_index = [],
      trace = []\<rparr>"

definition two_items :: "item list" where
  "two_items = [\<lparr>productId = ''p1'', quantity = 2\<rparr>, \<lparr>productId = ''p2'', quantity = 3\<rparr>]"

definition paid_request :: order_request where
  "paid_request =
     \<lparr>req_userId = Some ''u2'', req_items = Some two_items, req_total = Some (Num (Fin 114)),
      req_shippingAddress = Some ''1 Main St'', req_paymentIntentId = Some ''pi_1''\<rparr>"

definition unpaid_request :: order_request where
  "unpaid_request = paid_request\<lparr>req_paymentIntentId := Some ''pi_2''\<rparr>"


definition empty_request :: order_request where
  "empty_request = paid_request\<lparr>req_items := Some []\<rparr>"

text \<open>
  Requests whose user id is the empty string, with and without items; requests that lack
  a field of the body; and one whose total is a string.
\<close>

definition nobody_request :: order_request where
  "nobody_request = empty_request\<lparr>req_userId := Some []\<rparr>"



definition unaddressed_request :: order_request where
  "unaddressed_request = empty_request\<lparr>req_shippingAddress := None\<rparr>"

definition string_request :: order_request where
  "string_request = empty_request\<lparr>req_total := Some (Str ''114.00'')\<rparr>"

text \<open>
  The store after two orders were placed from \<open>demo_world\<close>: one whose total is a string,
  then one whose total is zero.
\<close>

definition gift_request :: order_request where
  "gift_request = empty_request\<lparr>req_total := Some (Num (Fin 0))\<rparr>"

definition text_world :: world where
  "text_world =
     snd (process_order demo_env gift_request (snd (process_order demo_env string_request demo_world)))"

definition user_request :: analytics_request where
  "user_request = \<lparr>authorization = Some ''Bearer tok_user''\<rparr>"

definition gone_request :: analytics_request where
  "gone_request = \<lparr>authorization = Some ''Bearer tok_gone''\<rparr>"

definition admin_request :: analytics_request where
  "admin_request = \<lparr>authorization = Some ''Bearer tok_admin''\<rparr>"

definition order_at :: "int \<Rightarrow> js_value option \<Rightarrow> order_doc" where
  "order_at t v =
     \<lparr>userId = ''u2'', items = [], total = v, shippingAddress = ''1 Main St'',
      paymentIntentId = ''pi_1'', order_status = ''confirmed'',
      createdAt = \<lparr>seconds = 1700000000 + t, nanoseconds = 0\<rparr>,
      updatedAt = \<lparr>seconds = 1700000000 + t, nanoseconds = 0\<rparr>\<rparr>"

definition busy_world :: world where
  "busy_world = demo_world\<lparr>orders :=
     [(''o01'', order_at 5 (Some (Num (Fin 10)))), (''o02'', order_at 3 None),
      (''o03'', order_at 9 (Some Null)), (''o04'', order_at 1 (Some (Num (Fin 0)))),
      (''o05'', order_at 12 (Some (Num NaN))), (''o06'', order_at 7 (Some (Num (Fin (39 / 2))))),
      (''o07'', order_at 2 (Some (Str []))), (''o08'', order_at 11 (Some (Boolean False))),
      (''o09'', order_at 4 None), (''o10'', order_at 10 None),
      (''o11'', order_at 6 None), (''o12'', order_at 8 None)]\<rparr>"

text \<open>Two orders created one microsecond apart, the older one read first.\<close>

definition early :: order_doc where
  "early = order_at 0 (Some (Num (Fin 10)))"

definition late :: order_doc where
  "late = early\<lparr>createdAt := \<lparr>seconds = 1700000000, nanoseconds = 1000\<rparr>\<rparr>"

definition close_world :: world where
  "close_world = demo_world\<lparr>orders := [(''o1'', early), (''o2'', late)]\<rparr>"

definition exact_request :: payment_request where
  "exact_request =
     \<lparr>pr_amount = json_number (19995 / 1000), pr_currency = None, pr_orderId = Some ''o1''\<rparr>"

definition cheap_request :: payment_request where
  "cheap_request =
     \<lparr>pr_amount = json_number (1005 / 1000), pr_currency = None, pr_orderId = Some ''o1''\<rparr>"

definition tiny_request :: payment_request where
  "tiny_request =
     \<lparr>pr_amount = json_number (45 / 1000), pr_currency = None, pr_orderId = Some ''o1''\<rparr>"

definition refund_request :: payment_request where
  "refund_request = \<lparr>pr_amount = Fin (- 5), pr_currency = Some ''eur'', pr_orderId = None\<rparr>"

definition free_request :: payment_request where
  "free_request = \<lparr>pr_amount = Fin 0, pr_currency = None, pr_orderId = None\<rparr>"

section \<open>Properties of the order handler\<close>

lemma trace_emit: "trace (emit ev w) = trace w @ [ev]"
  by (simp add: emit_def)

lemma emit_fields:
  "orders (emit ev w) = orders w" "products (emit ev w) = products w"
  "carts (emit ev w) = carts w" "users (emit ev w) = users w"
  "search_index (emit ev w) = search_index w"
  by (simp_all add: emit_def)

text \<open>
  C2. When the payment intent retrieved for the request has a status other than
  \<^verbatim>\<open>succeeded\<close>, the handler answers 400 with the error \<^verbatim>\<open>Payment not completed\<close>; the only
  call it makes is the retrieval of the intent, no write is sent to the store, and the
  orders, the products (so every stock) and the carts are as before.
\<close>

theorem process_order_unpaid:
  assumes "stripe_retrieve e (req_paymentIntentId r) = Inr paymentIntent"
    and "pi_status paymentIntent \<noteq> ''succeeded''"
  shows "fst (process_order e r w) = \<lparr>status_code = 400, body = ErrorBody ''Payment not completed''\<rparr>
    \<and> orders (snd (process_order e r w)) = orders w
    \<and> products (snd (process_order e r w)) = products w
    \<and> carts (snd (process_order e r w)) = carts w
    \<and> trace (snd (process_order e r w)) = trace w @ [Stripe_retrieve (req_paymentIntentId r)]
    \<and> filter is_write (trace (snd (process_order e r w))) = filter is_write (trace w)"
  using assms by (simp add: process_order_def trace_emit emit_fields)

theorem process_order_unpaid_witness:
  "stripe_retrieve demo_env (req_paymentIntentId unpaid_request) = Inr pending_intent
   \<and> pi_status pending_intent \<noteq> ''succeeded''
   \<and> fst (process_order demo_env unpaid_request demo_world)
       = \<lparr>status_code = 400, body = ErrorBody ''Payment not completed''\<rparr>
   \<and> orders (snd (process_order demo_env unpaid_request demo_world)) = []
   \<and> map (\<lambda>kv. (fst kv, stock (snd kv)))
        (products (snd (process_order demo_env unpaid_request demo_world)))
       = [(''p1'', 5), (''p2'', 7)]
   \<and> carts (snd (process_order demo_env unpaid_request demo_world)) = carts demo_world
   \<and> trace (snd (process_order demo_env unpaid_request demo_world)) = [Stripe_retrieve (Some ''pi_2'')]"
proof -
  have a: "stripe_retrieve demo_env (req_paymentIntentId unpaid_request) = Inr pending_intent"
    by (simp add: demo_env_def demo_retrieve_def unpaid_request_def paid_request_def)
  have b: "pi_status pending_intent \<noteq> ''succeeded''"
    by (simp add: pending_intent_def)
  have c: "req_paymentIntentId unpaid_request = Some ''pi_2''"
    by (simp add: unpaid_request_def)
  show ?thesis
    using process_order_unpaid [OF a b, of demo_world] a b c
    by (simp add: demo_world_def mug_def lamp_def)
qed

subsection \<open>References\<close>

lemma split_at_no_sep: "sep \<notin> set s \<Longrightarrow> split_at sep acc s = [rev acc @ s]"
  by (induction s arbitrary: acc) auto

lemma double_slash_no_slash: "CHR ''/'' \<notin> set s \<Longrightarrow> \<not> double_slash s"
  by (induction s rule: double_slash.induct) auto

text \<open>A valid id names the document with that id.\<close>

lemma doc_ref_valid: "valid_id s \<Longrightarrow> doc_ref s = Doc s"
  by (simp add: valid_id_def doc_ref_def components_def split_def split_at_no_sep
      double_slash_no_slash)

lemma valid_id_accepted: "valid_id s \<Longrightarrow> store_accepts s"
  by (simp add: valid_id_def)

subsection \<open>A paid order\<close>

lemma queue_updates_valid:
  "list_all (\<lambda>it. valid_id (productId it)) its \<Longrightarrow>
   queue_updates its b = Inr (b @ map (\<lambda>it. (Doc (productId it), - quantity it)) its)"
  by (induction its arbitrary: b) (simp_all add: doc_ref_valid)

lemma first_error_None:
  "list_all (\<lambda>it. valid_id (productId it) \<and> doc_exists c (productId it)) its \<Longrightarrow>
   first_error c (map (\<lambda>it. (Doc (productId it), - quantity it)) its) = None"
  by (induction its) (simp_all add: valid_id_accepted)

lemma increment_stock_twice:
  "increment_stock a (increment_stock b p) = increment_stock (b + a) p"
  by (simp add: increment_stock_def)

lemma increment_stock_zero: "increment_stock 0 p = p"
  by (simp add: increment_stock_def)

lemma doc_get_map_entry:
  "doc_get (AList.map_entry k f c) p = (if p = k then map_option f (doc_get c p) else doc_get c p)"
  by (simp add: doc_get_def map_of_map_entry split: option.splits)

lemma doc_get_apply_updates:
  "doc_get (apply_updates (map (\<lambda>it. (Doc (productId it), - quantity it)) its) c) p =
     map_option (increment_stock (- ordered p its)) (doc_get c p)"
proof (induction its arbitrary: c)
  case Nil
  show ?case by (cases "doc_get c p") (simp_all add: increment_stock_zero ordered_def)
next
  case (Cons u us)
  have o: "ordered p (u # us) = (if productId u = p then quantity u else 0) + ordered p us"
    by (simp add: ordered_def)
  show ?case
    by (cases "doc_get c p")
      (auto simp add: Cons.IH doc_get_map_entry increment_stock_twice o)
qed


lemma auto_id_longer: "kv \<in> set c \<Longrightarrow> length (fst kv) < length (auto_id c)"
  by (induction c) (auto simp: auto_id_def)

lemma auto_id_fresh: "auto_id c \<notin> fst ` set c"
  using auto_id_longer by fastforce

lemma doc_exists_map_entry: "doc_exists (AList.map_entry k f c) p = doc_exists c p"
  by (simp add: doc_exists_def map_of_map_entry split: option.splits)

lemma doc_exists_apply_update: "doc_exists (apply_update u c) p = doc_exists c p"
  by (cases "(u, c)" rule: apply_update.cases) (simp_all add: doc_exists_map_entry)

lemma doc_exists_apply_updates: "doc_exists (apply_updates b c) p = doc_exists c p"
  by (induction b arbitrary: c) (simp_all add: doc_exists_apply_update)

lemma doc_get_delete: "doc_get (AList.delete k c) k = None"
  by (simp add: doc_get_def delete_conv')

text \<open>The data of the order is there exactly when the body has its five fields.\<close>

lemma new_order_Some:
  "new_order e r = Some d \<Longrightarrow>
   req_userId r = Some (userId d) \<and> req_items r = Some (items d)
   \<and> req_total r = total d \<and> req_shippingAddress r = Some (shippingAddress d)
   \<and> req_paymentIntentId r = Some (paymentIntentId d)
   \<and> order_status d = ''confirmed'' \<and> createdAt d = server_time e \<and> updatedAt d = server_time e"
  by (auto simp: new_order_def split: option.splits)

text \<open>
  The run of the handler when the payment succeeded, the body is complete, the user id and
  the product ids are valid and the products exist.
\<close>

lemma process_order_paid_eq:
  assumes "stripe_retrieve e (req_paymentIntentId r) = Inr paymentIntent"
    and "pi_status paymentIntent = ''succeeded''"
    and "new_order e r = Some d"
    and "valid_id (userId d)"
    and "list_all (\<lambda>it. valid_id (productId it) \<and> doc_exists (products w) (productId it)) (items d)"
  shows "process_order e r w =
     (\<lparr>status_code = 200, body = OrderPlaced (auto_id (orders w)) ''success''\<rparr>,
      w\<lparr>orders := orders w @ [(auto_id (orders w), d)],
        products := apply_updates (map (\<lambda>it. (Doc (productId it), - quantity it)) (items d)) (products w),
        carts := AList.delete (userId d) (carts w),
        trace := trace w @ [Stripe_retrieve (req_paymentIntentId r),
                            Doc_add ''orders'' (auto_id (orders w)),
                            Batch_commit (map (\<lambda>it. (Doc (productId it), - quantity it)) (items d)),
                            Doc_delete ''carts'' (userId d)]\<rparr>)"
proof -
  note f = new_order_Some [OF assms(3)]
  have v: "list_all (\<lambda>it. valid_id (productId it)) (items d)"
    using assms(5) by (simp add: list_all_iff)
  have q: "queue_updates (items d) [] = Inr (map (\<lambda>it. (Doc (productId it), - quantity it)) (items d))"
    using queue_updates_valid [OF v, of "[]"] by simp
  show ?thesis
    using assms(1,2,3) f
    by (simp add: process_order_def orders_add_def batch_commit_def carts_delete_def emit_def
        Let_def q first_error_None [OF assms(5)] doc_ref_valid [OF assms(4)]
        valid_id_accepted [OF assms(4)])
qed


lemma paid_order:
  "new_order demo_env paid_request
     = Some \<lparr>userId = ''u2'', items = two_items, total = Some (Num (Fin 114)),
             shippingAddress = ''1 Main St'', paymentIntentId = ''pi_1'',
             order_status = ''confirmed'', createdAt = server_time demo_env,
             updatedAt = server_time demo_env\<rparr>"
  by (simp add: new_order_def paid_request_def)

lemma demo_ids: "valid_id ''u2''" "valid_id ''p1''" "valid_id ''p2''"
  by (simp_all add: valid_id_def store_accepts_def reserved_id_def)

lemma demo_products:
  "doc_get (products demo_world) ''p1'' = Some mug"
  "doc_get (products demo_world) ''p2'' = Some lamp"
  "doc_exists (products demo_world) ''p1''" "doc_exists (products demo_world) ''p2''"
  by (simp_all add: demo_world_def doc_get_def doc_exists_def)



subsection \<open>An order without items\<close>

text \<open>
  C10, as the code has it. With a succeeded payment intent, a body that holds its five
  fields with an empty list of items, and a user id that is a valid document id, the
  handler succeeds: it answers 200 with the new order id and status \<^verbatim>\<open>success\<close>, adds one
  confirmed order whose items are the empty list, commits an empty batch that leaves the
  products as they were, and deletes the cart of the user.
\<close>

theorem process_order_no_items:
  assumes "stripe_retrieve e (req_paymentIntentId r) = Inr paymentIntent"
    and "pi_status paymentIntent = ''succeeded''"
    and "new_order e r = Some d"
    and "items d = []"
    and "valid_id (userId d)"
  shows "fst (process_order e r w)
       = \<lparr>status_code = 200, body = OrderPlaced (auto_id (orders w)) ''success''\<rparr>
    \<and> orders (snd (process_order e r w)) = orders w @ [(auto_id (orders w), d)]
    \<and> req_items r = Some []
    \<and> order_status d = ''confirmed''
    \<and> products (snd (process_order e r w)) = products w
    \<and> doc_get (carts (snd (process_order e r w))) (userId d) = None
    \<and> trace (snd (process_order e r w))
       = trace w @ [Stripe_retrieve (req_paymentIntentId r), Doc_add ''orders'' (auto_id (orders w)),
                    Batch_commit [], Doc_delete ''carts'' (userId d)]"
proof -
  have "list_all (\<lambda>it. valid_id (productId it) \<and> doc_exists (products w) (productId it)) (items d)"
    by (simp add: assms(4))
  from process_order_paid_eq [OF assms(1,2,3,5) this] new_order_Some [OF assms(3)] show ?thesis
    by (simp add: assms(4) doc_get_delete)
qed

lemma empty_order:
  "new_order demo_env empty_request
     = Some \<lparr>userId = ''u2'', items = [], total = Some (Num (Fin 114)),
             shippingAddress = ''1 Main St'', paymentIntentId = ''pi_1'',
             order_status = ''confirmed'', createdAt = server_time demo_env,
             updatedAt = server_time demo_env\<rparr>"
  by (simp add: new_order_def empty_request_def paid_request_def)

theorem process_order_no_items_witness:
  "stripe_retrieve demo_env (req_paymentIntentId empty_request) = Inr paid_intent
   \<and> pi_status paid_intent = ''succeeded''
   \<and> map_option items (new_order demo_env empty_request) = Some []
   \<and> map_option userId (new_order demo_env empty_request) = Some ''u2''
   \<and> valid_id ''u2''
   \<and> fst (process_order demo_env empty_request demo_world)
       = \<lparr>status_code = 200, body = OrderPlaced ''0'' ''success''\<rparr>
   \<and> map (\<lambda>kv. (fst kv, items (snd kv), order_status (snd kv)))
        (orders (snd (process_order demo_env empty_request demo_world))) = [(''0'', [], ''confirmed'')]
   \<and> products (snd (process_order demo_env empty_request demo_world)) = products demo_world
   \<and> doc_get (carts (snd (process_order demo_env empty_request demo_world))) ''u2'' = None"
proof -
  let ?d = "\<lparr>userId = ''u2'', items = [], total = Some (Num (Fin 114)),
             shippingAddress = ''1 Main St'', paymentIntentId = ''pi_1'',
             order_status = ''confirmed'', createdAt = server_time demo_env,
             updatedAt = server_time demo_env\<rparr>"
  have a: "stripe_retrieve demo_env (req_paymentIntentId empty_request) = Inr paid_intent"
    by (simp add: demo_env_def demo_retrieve_def empty_request_def paid_request_def)
  have b: "pi_status paid_intent = ''succeeded''"
    by (simp add: paid_intent_def)
  have c: "items ?d = []"
    by simp
  have u: "valid_id (userId ?d)"
    by (simp add: demo_ids)
  have d: "auto_id ([] :: order_doc collection) = ''0''"
    by (simp add: auto_id_def)
  have i: "orders demo_world = []"
    by (simp add: demo_world_def)
  show ?thesis
    using process_order_no_items [OF a b empty_order c u, of demo_world] a b
    by (simp add: d i empty_order demo_ids)
qed

text \<open>
  C10 as stated fails for a body whose user id is the empty string: the order is added and
  the empty batch committed, then \<^verbatim>\<open>doc('')\<close> throws, the handler answers 500 and no cart is
  deleted. It fails too for a body without a shipping address: \<^verbatim>\<open>add\<close> refuses the data,
  the handler answers 500 and no order is created.
\<close>

theorem process_order_empty_user:
  "stripe_retrieve demo_env (req_paymentIntentId nobody_request) = Inr paid_intent
   \<and> pi_status paid_intent = ''succeeded''
   \<and> req_items nobody_request = Some []
   \<and> req_userId nobody_request = Some []
   \<and> fst (process_order demo_env nobody_request demo_world)
       = \<lparr>status_code = 500, body = ErrorBody bad_path\<rparr>
   \<and> map fst (orders (snd (process_order demo_env nobody_request demo_world))) = [''0'']
   \<and> carts (snd (process_order demo_env nobody_request demo_world)) = carts demo_world
   \<and> trace (snd (process_order demo_env nobody_request demo_world))
       = [Stripe_retrieve (Some ''pi_1''), Doc_add ''orders'' ''0'', Batch_commit []]
   \<and> stripe_retrieve demo_env (req_paymentIntentId unaddressed_request) = Inr paid_intent
   \<and> req_items unaddressed_request = Some []
   \<and> req_shippingAddress unaddressed_request = None
   \<and> fst (process_order demo_env unaddressed_request demo_world)
       = \<lparr>status_code = 500, body = ErrorBody undefined_value\<rparr>
   \<and> orders (snd (process_order demo_env unaddressed_request demo_world)) = []
   \<and> carts (snd (process_order demo_env unaddressed_request demo_world)) = carts demo_world
   \<and> trace (snd (process_order demo_env unaddressed_request demo_world))
       = [Stripe_retrieve (Some ''pi_1'')]"
  by (simp add: process_order_def orders_add_def batch_commit_def carts_delete_def emit_def
      Let_def failed_def new_order_def nobody_request_def unaddressed_request_def
      empty_request_def paid_request_def demo_env_def demo_retrieve_def paid_intent_def
      demo_world_def auto_id_def doc_ref_def)

subsection \<open>The same request twice\<close>

lemma new_order_again:
  "new_order e1 r = Some d \<Longrightarrow>
   new_order e2 r = Some (d\<lparr>createdAt := server_time e2, updatedAt := server_time e2\<rparr>)"
  by (auto simp: new_order_def split: option.splits)

text \<open>
  C6. The handler is not idempotent. From any state where the payment intent of the
  request has succeeded (at both calls), the body holds its five fields, the user id is a
  valid document id and the items name existing products by valid ids, handling the same
  request twice answers 200 twice, with two different new order ids, leaves two order
  documents for the one payment intent and the same items, and takes twice the ordered
  quantity off the stock of every product.
\<close>

theorem process_order_twice:
  assumes "stripe_retrieve e1 (req_paymentIntentId r) = Inr pi1"
    and "pi_status pi1 = ''succeeded''"
    and "stripe_retrieve e2 (req_paymentIntentId r) = Inr pi2"
    and "pi_status pi2 = ''succeeded''"
    and "new_order e1 r = Some d"
    and "valid_id (userId d)"
    and "list_all (\<lambda>it. valid_id (productId it) \<and> doc_exists (products w) (productId it)) (items d)"
  shows "\<exists>k1 k2 d2.
      fst (process_order e1 r w) = \<lparr>status_code = 200, body = OrderPlaced k1 ''success''\<rparr>
    \<and> fst (process_order e2 r (snd (process_order e1 r w)))
        = \<lparr>status_code = 200, body = OrderPlaced k2 ''success''\<rparr>
    \<and> k1 \<noteq> k2 \<and> k1 \<notin> fst ` set (orders w) \<and> k2 \<notin> fst ` set (orders w)
    \<and> orders (snd (process_order e2 r (snd (process_order e1 r w))))
        = orders w @ [(k1, d), (k2, d2)]
    \<and> paymentIntentId d2 = paymentIntentId d \<and> items d2 = items d
    \<and> req_paymentIntentId r = Some (paymentIntentId d) \<and> req_items r = Some (items d)
    \<and> (\<forall>p. doc_get (products (snd (process_order e2 r (snd (process_order e1 r w))))) p
            = map_option (increment_stock (- (2 * ordered p (items d)))) (doc_get (products w) p))"
proof -
  let ?k1 = "auto_id (orders w)"
  let ?w1 = "snd (process_order e1 r w)"
  let ?k2 = "auto_id (orders ?w1)"
  let ?d2 = "d\<lparr>createdAt := server_time e2, updatedAt := server_time e2\<rparr>"
  let ?b = "map (\<lambda>it. (Doc (productId it), - quantity it)) (items d)"
  note first = process_order_paid_eq [OF assms(1,2,5,6,7)]
  have o1: "orders ?w1 = orders w @ [(?k1, d)]"
    and p1: "products ?w1 = apply_updates ?b (products w)"
    by (simp_all add: first)
  have n2: "new_order e2 r = Some ?d2"
    using assms(5) by (rule new_order_again)
  have u2: "valid_id (userId ?d2)"
    using assms(6) by simp
  have ex2: "list_all (\<lambda>it. valid_id (productId it) \<and> doc_exists (products ?w1) (productId it))
      (items ?d2)"
    using assms(7) by (simp add: p1 doc_exists_apply_updates)
  note second = process_order_paid_eq [OF assms(3,4) n2 u2 ex2]
  have fresh: "?k2 \<notin> fst ` set (orders ?w1)"
    by (rule auto_id_fresh)
  have k: "?k1 \<noteq> ?k2" "?k2 \<notin> fst ` set (orders w)"
    using fresh by (auto simp: o1)
  have prod: "doc_get (products (snd (process_order e2 r ?w1))) p
      = map_option (increment_stock (- (2 * ordered p (items d)))) (doc_get (products w) p)" for p
    by (cases "doc_get (products w) p")
      (simp_all add: second p1 doc_get_apply_updates increment_stock_twice)
  have "fst (process_order e1 r w) = \<lparr>status_code = 200, body = OrderPlaced ?k1 ''success''\<rparr>"
    by (simp add: first)
  moreover have "fst (process_order e2 r ?w1)
       = \<lparr>status_code = 200, body = OrderPlaced ?k2 ''success''\<rparr>"
    by (simp add: second)
  moreover have "orders (snd (process_order e2 r ?w1)) = orders w @ [(?k1, d), (?k2, ?d2)]"
    by (simp add: second o1)
  moreover have "paymentIntentId ?d2 = paymentIntentId d \<and> items ?d2 = items d"
    by simp
  moreover have "req_paymentIntentId r = Some (paymentIntentId d) \<and> req_items r = Some (items d)"
    using new_order_Some [OF assms(5)] by simp
  ultimately show ?thesis
    using k auto_id_fresh [of "orders w"] prod by blast
qed

theorem process_order_twice_witness:
  "stripe_retrieve demo_env (req_paymentIntentId paid_request) = Inr paid_intent
   \<and> pi_status paid_intent = ''succeeded''
   \<and> map_option userId (new_order demo_env paid_request) = Some ''u2''
   \<and> map_option items (new_order demo_env paid_request) = Some two_items
   \<and> valid_id ''u2''
   \<and> list_all (\<lambda>it. valid_id (productId it) \<and> doc_exists (products demo_world) (productId it))
        two_items
   \<and> status_code (fst (process_order demo_env paid_request demo_world)) = 200
   \<and> status_code (fst (process_order demo_env paid_request
         (snd (process_order demo_env paid_request demo_world)))) = 200
   \<and> length (orders (snd (process_order demo_env paid_request
         (snd (process_order demo_env paid_request demo_world))))) = 2
   \<and> distinct (map fst (orders (snd (process_order demo_env paid_request
         (snd (process_order demo_env paid_request demo_world))))))
   \<and> map (\<lambda>kv. paymentIntentId (snd kv)) (orders (snd (process_order demo_env paid_request
         (snd (process_order demo_env paid_request demo_world))))) = [''pi_1'', ''pi_1'']
   \<and> map_option stock (doc_get (products (snd (process_order demo_env paid_request
         (snd (process_order demo_env paid_request demo_world))))) ''p1'') = Some 1
   \<and> map_option stock (doc_get (products (snd (process_order demo_env paid_request
         (snd (process_order demo_env paid_request demo_world))))) ''p2'') = Some 1"
proof -
  let ?d = "\<lparr>userId = ''u2'', items = two_items, total = Some (Num (Fin 114)),
             shippingAddress = ''1 Main St'', paymentIntentId = ''pi_1'',
             order_status = ''confirmed'', createdAt = server_time demo_env,
             updatedAt = server_time demo_env\<rparr>"
  let ?w2 = "snd (process_order demo_env paid_request (snd (process_order demo_env paid_request demo_world)))"
  have a: "stripe_retrieve demo_env (req_paymentIntentId paid_request) = Inr paid_intent"
    by (simp add: demo_env_def demo_retrieve_def paid_request_def)
  have b: "pi_status paid_intent = ''succeeded''"
    by (simp add: paid_intent_def)
  have u: "valid_id (userId ?d)"
    by (simp add: demo_ids)
  have c: "list_all (\<lambda>it. valid_id (productId it) \<and> doc_exists (products demo_world) (productId it))
      (items ?d)"
    by (simp add: two_items_def demo_ids demo_products)
  have c': "list_all (\<lambda>it. valid_id (productId it) \<and> doc_exists (products demo_world) (productId it))
      two_items"
    using c by simp
  have g: "ordered ''p1'' two_items = 2" "ordered ''p2'' two_items = 3"
    by (simp_all add: ordered_def two_items_def)
  have h: "stock mug = 5" "stock lamp = 7"
    by (simp_all add: mug_def lamp_def)
  have i: "orders demo_world = []"
    by (simp add: demo_world_def)
  from process_order_twice [OF a b a b paid_order u c] obtain k1 k2 d2 where
    r: "fst (process_order demo_env paid_request demo_world)
          = \<lparr>status_code = 200, body = OrderPlaced k1 ''success''\<rparr>"
       "fst (process_order demo_env paid_request (snd (process_order demo_env paid_request demo_world)))
          = \<lparr>status_code = 200, body = OrderPlaced k2 ''success''\<rparr>"
       "k1 \<noteq> k2"
       "orders ?w2 = orders demo_world @ [(k1, ?d), (k2, d2)]"
       "paymentIntentId d2 = paymentIntentId ?d"
       "\<And>p. doc_get (products ?w2) p
            = map_option (increment_stock (- (2 * ordered p (items ?d)))) (doc_get (products demo_world) p)"
    by blast
  have 1: "status_code (fst (process_order demo_env paid_request demo_world)) = 200"
    by (simp add: r(1))
  have 2: "status_code (fst (process_order demo_env paid_request
         (snd (process_order demo_env paid_request demo_world)))) = 200"
    by (simp add: r(2))
  have 3: "length (orders ?w2) = 2" "distinct (map fst (orders ?w2))"
    "map (\<lambda>kv. paymentIntentId (snd kv)) (orders ?w2) = [''pi_1'', ''pi_1'']"
    using r(3) by (simp_all add: r(4,5) i)
  have 4: "map_option stock (doc_get (products ?w2) ''p1'') = Some 1"
    "map_option stock (doc_get (products ?w2) ''p2'') = Some 1"
    by (simp_all add: r(6) demo_products g h increment_stock_def)
  have 5: "map_option userId (new_order demo_env paid_request) = Some ''u2''"
    "map_option items (new_order demo_env paid_request) = Some two_items"
    by (simp_all add: paid_order)
  from a b 5 demo_ids(1) c' 1 2 3 4 show ?thesis
    by (intro conjI)
qed

section \<open>Properties of the binary64 rounding\<close>

lemma pow2_powi: "pow2 e = power_int 2 e"
  by (simp add: pow2_def power_int_def inverse_eq_divide power_one_over)

lemma pow2_pos: "0 < pow2 e"
  by (simp add: pow2_powi)

lemma pow2_add: "pow2 (a + b) = pow2 a * pow2 b"
  by (simp add: pow2_powi power_int_add)

lemma pow2_mono: "a \<le> b \<Longrightarrow> pow2 a \<le> pow2 b"
  by (simp add: pow2_powi power_int_increasing)

lemma pow2_strict_mono: "a < b \<Longrightarrow> pow2 a < pow2 b"
  by (simp add: pow2_powi power_int_strict_increasing)

lemma pow2_less_cancel: "pow2 a < pow2 b \<Longrightarrow> a < b"
  using pow2_mono [of b a] by (cases "a < b") auto

lemma pow2_nat: "0 \<le> e \<Longrightarrow> pow2 e = of_int (2 ^ nat e)"
  by (simp add: pow2_def)

lemma pow2_diff: "pow2 a / pow2 b = pow2 (a - b)"
  using pow2_add [of "a - b" b] pow2_pos [of b] by (simp add: field_simps)

lemma bitlen_rat:
  assumes "0 < n"
  shows "pow2 (bitlen n - 1) \<le> of_int n" and "of_int n < pow2 (bitlen n)"
proof -
  have b: "1 \<le> bitlen n"
    using assms bitlen_eq_zero_iff [of n] bitlen_nonneg [of n] by linarith
  from bitlen_bounds [OF assms]
  have "(2::int) ^ nat (bitlen n - 1) \<le> n" and "n < 2 ^ nat (bitlen n)"
    by simp_all
  then have "(of_int (2 ^ nat (bitlen n - 1)) :: rat) \<le> of_int n"
    and "(of_int n :: rat) < of_int (2 ^ nat (bitlen n))"
    by (simp_all only: of_int_le_iff of_int_less_iff)
  then show "pow2 (bitlen n - 1) \<le> of_int n" and "of_int n < pow2 (bitlen n)"
    using b by (simp_all add: pow2_nat)
qed

lemma expo_bounds:
  assumes "0 < q"
  shows "pow2 (expo q) \<le> q \<and> q < pow2 (expo q + 1)"
proof -
  obtain n d where nd: "quotient_of q = (n, d)"
    by (cases "quotient_of q")
  have d: "0 < d" using nd by (rule quotient_of_denom_pos)
  have q: "q = of_int n / of_int d" using nd by (rule quotient_of_div)
  have n: "0 < n"
    using assms d by (simp add: q zero_less_divide_iff)
  let ?k = "bitlen n - bitlen d"
  have D: "(0::rat) < of_int d" using d by simp
  have "q < pow2 (bitlen n) / pow2 (bitlen d - 1)"
  proof -
    have "q < pow2 (bitlen n) / of_int d"
      unfolding q using bitlen_rat(2) [OF n] D by (simp add: divide_strict_right_mono)
    also have "\<dots> \<le> pow2 (bitlen n) / pow2 (bitlen d - 1)"
      using bitlen_rat(1) [OF d] pow2_pos [of "bitlen n"] pow2_pos [of "bitlen d - 1"]
      by (simp add: frac_le)
    finally show ?thesis .
  qed
  then have up: "q < pow2 (?k + 1)"
    by (simp add: pow2_diff algebra_simps)
  have "pow2 (bitlen n - 1) / pow2 (bitlen d) \<le> q"
  proof -
    have "pow2 (bitlen n - 1) / pow2 (bitlen d) \<le> pow2 (bitlen n - 1) / of_int d"
      using bitlen_rat(2) [OF d] pow2_pos [of "bitlen n - 1"] D
      by (simp add: frac_le)
    also have "\<dots> \<le> q"
      unfolding q using bitlen_rat(1) [OF n] D by (simp add: divide_right_mono)
    finally show ?thesis .
  qed
  then have lo: "pow2 (?k - 1) \<le> q"
    by (simp add: pow2_diff algebra_simps)
  show ?thesis
  proof (cases "pow2 ?k \<le> q")
    case True
    then have "expo q = ?k" by (simp add: expo_def nd)
    then show ?thesis using True up by simp
  next
    case False
    then have "expo q = ?k - 1" by (simp add: expo_def nd)
    then show ?thesis using False lo by simp
  qed
qed

lemma expo_less: "0 < x \<Longrightarrow> x < pow2 m \<Longrightarrow> expo x < m"
proof -
  assume "0 < x" "x < pow2 m"
  then have "pow2 (expo x) < pow2 m"
    using expo_bounds [of x] by simp
  then show ?thesis by (rule pow2_less_cancel)
qed

lemma expo_pow2: "expo (pow2 k) = k"
proof -
  have lo: "pow2 (expo (pow2 k)) \<le> pow2 k" and hi: "pow2 k < pow2 (expo (pow2 k) + 1)"
    using expo_bounds [OF pow2_pos [of k]] by simp_all
  have a: "k < expo (pow2 k) + 1"
    using hi by (rule pow2_less_cancel)
  have b: "\<not> k < expo (pow2 k)"
  proof
    assume "k < expo (pow2 k)"
    then have "pow2 k < pow2 (expo (pow2 k))" by (rule pow2_strict_mono)
    with lo show False by simp
  qed
  from a b show ?thesis by linarith
qed

lemma rne_of_int: "rne (of_int i) = i"
  by (simp add: rne_def)

lemma rne_nonneg: "0 \<le> q \<Longrightarrow> 0 \<le> rne q"
  by (auto simp: rne_def Let_def)

lemma rne_le: "q \<le> of_int N \<Longrightarrow> rne q \<le> N"
proof -
  assume a: "q \<le> of_int N"
  then have f: "\<lfloor>q\<rfloor> \<le> N" by (simp add: floor_le_iff)
  show ?thesis
  proof (cases "\<lfloor>q\<rfloor> = N")
    case True
    then have "q - of_int \<lfloor>q\<rfloor> \<le> 0" using a by simp
    then show ?thesis using True by (simp add: rne_def Let_def)
  next
    case False
    then have "\<lfloor>q\<rfloor> + 1 \<le> N" using f by simp
    then show ?thesis using f by (simp add: rne_def Let_def)
  qed
qed


lemma ulp_pos: "0 < ulp q"
  by (simp add: ulp_def pow2_pos)

lemma fl_pos_nonneg: "0 < q \<Longrightarrow> 0 \<le> fl_pos q"
  by (simp add: fl_pos_def rne_nonneg ulp_pos less_imp_le)

lemma of_int_rne_integer: "x = of_int i \<Longrightarrow> of_int (rne x) = x"
  by (simp add: rne_of_int)

lemma fl_pos_idem:
  assumes q: "0 < q" and r: "0 < fl_pos q"
  shows "fl_pos (fl_pos q) = fl_pos q"
proof -
  define e where "e = max (expo q - 52) (- 1074)"
  define m where "m = rne (q / pow2 e)"
  have fq: "fl_pos q = of_int m * pow2 e"
    by (simp add: fl_pos_def ulp_def e_def m_def)
  have e_lo: "- 1074 \<le> e" and e_q: "expo q \<le> e + 52"
    by (simp_all add: e_def)
  have m_pos: "0 < m"
    using r pow2_pos [of e] by (simp add: fq zero_less_mult_iff)
  have "q < pow2 (expo q + 1)"
    using expo_bounds [OF q] by simp
  also have "\<dots> \<le> pow2 (e + 53)"
    using e_q by (intro pow2_mono) simp
  finally have "q / pow2 e < pow2 53"
    using pow2_pos [of e] pow2_add [of 53 e] by (simp add: field_simps)
  then have "q / pow2 e \<le> of_int (2 ^ 53)"
    by (simp add: pow2_def)
  then have m_hi: "m \<le> 2 ^ 53"
    unfolding m_def by (rule rne_le)
  define e' where "e' = max (expo (fl_pos q) - 52) (- 1074)"
  have "\<exists>i. fl_pos q / pow2 e' = of_int i"
  proof (cases "m = 2 ^ 53")
    case True
    then have v: "fl_pos q = pow2 (e + 53)"
      by (simp add: fq pow2_add [of e 53]) (simp add: pow2_def)
    then have "e' = e + 1"
      using e_lo by (simp add: e'_def expo_pow2)
    then have "fl_pos q / pow2 e' = pow2 52"
      by (simp add: v pow2_diff)
    also have "\<dots> = of_int (2 ^ 52)"
      by (simp add: pow2_def)
    finally show ?thesis by blast
  next
    case False
    then have "m < 2 ^ 53" using m_hi by simp
    then have "(of_int m :: rat) < of_int (2 ^ 53)"
      by (simp only: of_int_less_iff)
    then have "(of_int m :: rat) < pow2 53"
      by (simp add: pow2_def)
    then have "of_int m * pow2 e < pow2 53 * pow2 e"
      using pow2_pos [of e] by (rule mult_strict_right_mono)
    then have "fl_pos q < pow2 (e + 53)"
      by (simp add: fq pow2_add [of 53 e, symmetric] add.commute)
    then have "expo (fl_pos q) < e + 53"
      using r by (intro expo_less) 
    then have le: "e' \<le> e"
      using e_lo by (simp add: e'_def)
    have "fl_pos q / pow2 e' = of_int m * pow2 (e - e')"
      by (simp add: fq pow2_diff [symmetric])
    also have "\<dots> = of_int (m * 2 ^ nat (e - e'))"
      using le by (simp add: pow2_nat)
    finally show ?thesis by blast
  qed
  then obtain i where "fl_pos q / pow2 e' = of_int i" ..
  then have "of_int (rne (fl_pos q / pow2 e')) = fl_pos q / pow2 e'"
    by (rule of_int_rne_integer)
  then have "fl_pos (fl_pos q) = fl_pos q / pow2 e' * pow2 e'"
    by (simp add: fl_pos_def [of "fl_pos q"] ulp_def e'_def)
  then show ?thesis
    using pow2_pos [of e'] by simp
qed

lemma fl_Fin_0: "fl 0 = Fin 0"
  by (simp add: fl_def)

lemma fl_idem:
  assumes "fl q = Fin r"
  shows "fl r = Fin r"
proof -
  consider "q = 0" | "0 < q" | "q < 0" by linarith
  then show ?thesis
  proof cases
    case 1
    then show ?thesis using assms by (auto simp: fl_def)
  next
    case 2
    then have r: "r = fl_pos q" "\<not> pow2 1024 \<le> fl_pos q"
      using assms by (auto simp: fl_def Let_def split: if_splits)
    show ?thesis
    proof (cases "r = 0")
      case True
      then show ?thesis by (simp add: fl_def)
    next
      case False
      then have "0 < fl_pos q"
        using fl_pos_nonneg [OF 2] r(1) by simp
      then show ?thesis
        using fl_pos_idem [OF 2] r by (simp add: fl_def Let_def)
    qed
  next
    case 3
    then have q: "0 < - q" by simp
    have r: "r = - fl_pos (- q)" "\<not> pow2 1024 \<le> fl_pos (- q)"
      using assms 3 by (auto simp: fl_def Let_def split: if_splits)
    show ?thesis
    proof (cases "r = 0")
      case True
      then show ?thesis by (simp add: fl_def)
    next
      case False
      then have "0 < fl_pos (- q)"
        using fl_pos_nonneg [OF q] r(1) by simp
      then show ?thesis
        using fl_pos_idem [OF q] r by (simp add: fl_def Let_def)
    qed
  qed
qed

lemma expo_eqI:
  assumes "pow2 p \<le> q" and "q < pow2 (p + 1)"
  shows "expo q = p"
proof -
  have q: "0 < q" using pow2_pos [of p] assms(1) by simp
  have "expo q < p + 1"
    using q assms(2) by (rule expo_less)
  moreover have "\<not> expo q < p"
  proof
    assume "expo q < p"
    then have "expo q + 1 \<le> p" by simp
    then have "pow2 (expo q + 1) \<le> pow2 p" by (rule pow2_mono)
    with expo_bounds [OF q] assms(1) show False by simp
  qed
  ultimately show ?thesis by simp
qed

lemma rne_eqI:
  assumes "of_int m - 1 / 2 < x" and "x < of_int m + 1 / 2"
  shows "rne x = m"
proof -
  have "\<lfloor>x\<rfloor> = m \<or> \<lfloor>x\<rfloor> = m - 1"
    using assms by (simp add: floor_eq_iff) linarith
  then show ?thesis
  proof
    assume f: "\<lfloor>x\<rfloor> = m"
    then show ?thesis using assms(2) by (simp add: rne_def Let_def)
  next
    assume f: "\<lfloor>x\<rfloor> = m - 1"
    then show ?thesis using assms(1) by (simp add: rne_def Let_def)
  qed
qed

text \<open>Rounding a positive rational of the normal range, given its exponent.\<close>

lemma fl_normal:
  assumes "pow2 p \<le> q" and "q < pow2 (p + 1)" and "- 1022 \<le> p" and "p < 1023"
    and "of_int m - 1 / 2 < q / pow2 (p - 52)" and "q / pow2 (p - 52) < of_int m + 1 / 2"
  shows "fl q = Fin (of_int m * pow2 (p - 52))"
proof -
  have q: "0 < q" using pow2_pos [of p] assms(1) by simp
  have e: "expo q = p" using assms(1,2) by (rule expo_eqI)
  have u: "ulp q = pow2 (p - 52)"
    using assms(3) by (simp add: ulp_def e)
  have m: "rne (q / pow2 (p - 52)) = m"
    using assms(5,6) by (rule rne_eqI)
  have f: "fl_pos q = of_int m * pow2 (p - 52)"
    by (simp add: fl_pos_def u m)
  have "q / pow2 (p - 52) < pow2 53"
    using assms(2) pow2_pos [of "p - 52"] pow2_add [of 53 "p - 52"]
    by (simp add: field_simps)
  then have "q / pow2 (p - 52) \<le> of_int (2 ^ 53)"
    by (simp add: pow2_def)
  then have "m \<le> 2 ^ 53"
    using rne_le [of "q / pow2 (p - 52)" "2 ^ 53"] m by simp
  then have "(of_int m :: rat) \<le> of_int (2 ^ 53)"
    by (simp only: of_int_le_iff)
  then have "(of_int m :: rat) \<le> pow2 53"
    by (simp add: pow2_def)
  then have "fl_pos q \<le> pow2 53 * pow2 (p - 52)"
    unfolding f using pow2_pos [of "p - 52"] by (intro mult_right_mono) simp_all
  also have "\<dots> = pow2 (p + 1)"
    by (simp add: pow2_add [symmetric] add.commute)
  also have "\<dots> < pow2 1024"
    using assms(4) by (intro pow2_strict_mono) simp
  finally show ?thesis
    using q by (simp add: fl_def f)
qed

lemma rne_error: "\<bar>of_int (rne x) - x\<bar> \<le> 1 / 2"
proof -
  have "of_int \<lfloor>x\<rfloor> \<le> x" "x < of_int \<lfloor>x\<rfloor> + 1"
    by linarith+
  then show ?thesis
    by (auto simp: rne_def Let_def abs_le_iff)
qed

lemma fl_pos_error: "\<bar>fl_pos q - q\<bar> \<le> ulp q / 2"
proof -
  have "fl_pos q - q = (of_int (rne (q / ulp q)) - q / ulp q) * ulp q"
    using ulp_pos [of q] by (simp add: fl_pos_def left_diff_distrib)
  then have "\<bar>fl_pos q - q\<bar> = \<bar>of_int (rne (q / ulp q)) - q / ulp q\<bar> * ulp q"
    using ulp_pos [of q] by (simp add: abs_mult)
  also have "\<dots> \<le> 1 / 2 * ulp q"
    using rne_error [of "q / ulp q"] ulp_pos [of q] by (intro mult_right_mono) simp_all
  finally show ?thesis by simp
qed

text \<open>The roundings used by the examples below.\<close>

lemma fl_19_995: "fl (19995 / 1000) = Fin (5628092159329567 / 281474976710656)"
  by (rule trans [OF fl_normal [where p = 4 and m = 5628092159329567]])
     (simp_all add: pow2_def)

lemma fl_19_995_times_100: "fl (5628092159329567 / 281474976710656 * 100) = Fin (3999 / 2)"
  by (rule trans [OF fl_normal [where p = 10 and m = 8793893998952448]])
     (simp_all add: pow2_def)

lemma fl_1_005: "fl (1005 / 1000) = Fin (1131529406376837 / 1125899906842624)"
  by (rule trans [OF fl_normal [where p = 0 and m = 4526117625507348]])
     (simp_all add: pow2_def)

lemma fl_1_005_times_100:
  "fl (1131529406376837 / 1125899906842624 * 100) = Fin (7072058789855231 / 70368744177664)"
  by (rule trans [OF fl_normal [where p = 6 and m = 7072058789855231]])
     (simp_all add: pow2_def)

lemma fl_0_045: "fl (45 / 1000) = Fin (3242591731706757 / 72057594037927936)"
  by (rule trans [OF fl_normal [where p = "- 5" and m = 6485183463413514]])
     (simp_all add: pow2_def)

lemma fl_0_045_times_100: "fl (3242591731706757 / 72057594037927936 * 100) = Fin (9 / 2)"
  by (rule trans [OF fl_normal [where p = 2 and m = 5066549580791808]])
     (simp_all add: pow2_def)

lemma fl_10: "fl 10 = Fin 10"
  by (rule trans [OF fl_normal [where p = 3 and m = 5629499534213120]])
     (simp_all add: pow2_def)

lemma fl_59_2: "fl (59 / 2) = Fin (59 / 2)"
  by (rule trans [OF fl_normal [where p = 4 and m = 8303511812964352]])
     (simp_all add: pow2_def)

lemma fl_500: "fl 500 = Fin 500"
  by (rule trans [OF fl_normal [where p = 8 and m = 8796093022208000]])
     (simp_all add: pow2_def)

lemma fl_minus_500: "fl (- 500) = Fin (- 500)"
proof -
  have "fl_pos 500 = 500"
    using fl_500 by (simp add: fl_def Let_def split: if_splits)
  then show ?thesis
    by (simp add: fl_def Let_def pow2_def)
qed

lemma Math_round_eqI:
  "of_int n - 1 / 2 \<le> a \<Longrightarrow> a < of_int n + 1 / 2 \<Longrightarrow> Math_round (Fin a) = Fin (of_int n)"
  by (simp add: floor_eq_iff)

subsection \<open>The grid of the binary64 values and the sign of a difference\<close>

lemma rne_ge_1: "1 \<le> x \<Longrightarrow> 1 \<le> rne x"
proof -
  assume "1 \<le> x"
  then have "1 \<le> \<lfloor>x\<rfloor>" by (simp add: le_floor_iff)
  then show ?thesis by (simp add: rne_def Let_def)
qed

text \<open>Every rounded value is a multiple of \<open>2 ^ - 1074\<close>.\<close>

lemma fl_pos_grid: "\<exists>m. fl_pos q = of_int m * pow2 (- 1074)"
proof -
  define k where "k = max (expo q - 52) (- 1074)"
  have "pow2 k = pow2 (k + 1074) * pow2 (- 1074)"
    using pow2_add [of "k + 1074" "- 1074"] by simp
  moreover have "pow2 (k + 1074) = of_int (2 ^ nat (k + 1074))"
    by (rule pow2_nat) (simp add: k_def)
  ultimately have "fl_pos q = of_int (rne (q / ulp q) * 2 ^ nat (k + 1074)) * pow2 (- 1074)"
    by (simp add: fl_pos_def ulp_def k_def)
  then show ?thesis ..
qed

lemma fl_grid:
  assumes "fl q = Fin r"
  shows "\<exists>m. r = of_int m * pow2 (- 1074)"
proof -
  consider "q = 0" | "0 < q" | "q < 0" by linarith
  then show ?thesis
  proof cases
    case 1
    with assms have "r = of_int 0 * pow2 (- 1074)" by (simp add: fl_def)
    then show ?thesis ..
  next
    case 2
    with assms have r: "r = fl_pos q" by (simp add: fl_def Let_def split: if_splits)
    from fl_pos_grid [of q] show ?thesis by (simp add: r)
  next
    case 3
    with assms have r: "r = - fl_pos (- q)" by (simp add: fl_def Let_def split: if_splits)
    from fl_pos_grid [of "- q"] obtain m where "fl_pos (- q) = of_int m * pow2 (- 1074)" ..
    then have "r = of_int (- m) * pow2 (- 1074)" by (simp add: r)
    then show ?thesis ..
  qed
qed

text \<open>A rational at or above the least positive value does not round to zero.\<close>

lemma fl_pos_positive:
  assumes "pow2 (- 1074) \<le> d"
  shows "0 < fl_pos d"
proof -
  have d: "0 < d" using pow2_pos [of "- 1074"] assms by simp
  have "ulp d \<le> d"
  proof (cases "- 1074 \<le> expo d - 52")
    case True
    then have "ulp d = pow2 (expo d - 52)" by (simp add: ulp_def)
    also have "\<dots> \<le> pow2 (expo d)" by (rule pow2_mono) simp
    also have "\<dots> \<le> d" using expo_bounds [OF d] by simp
    finally show ?thesis .
  next
    case False
    then have "ulp d = pow2 (- 1074)" by (simp add: ulp_def)
    then show ?thesis using assms by simp
  qed
  then have "1 \<le> d / ulp d"
    using ulp_pos [of d] by (simp add: le_divide_eq)
  then have "1 \<le> rne (d / ulp d)" by (rule rne_ge_1)
  then have "0 < (of_int (rne (d / ulp d)) :: rat)" by simp
  then show ?thesis
    using ulp_pos [of d] by (simp add: fl_pos_def)
qed

text \<open>
  The difference of two binary64 values is greater than zero, as a number, exactly when
  the first is the greater one: a difference of values of the grid does not round to zero.
\<close>

lemma fl_diff_positive:
  assumes "fl p = Fin a" and "fl q = Fin b"
  shows "is_positive (fl (a - b)) \<longleftrightarrow> b < a"
proof (cases "b < a")
  case True
  from fl_grid [OF assms(1)] obtain m where m: "a = of_int m * pow2 (- 1074)" ..
  from fl_grid [OF assms(2)] obtain n where n: "b = of_int n * pow2 (- 1074)" ..
  have "of_int n * pow2 (- 1074) < of_int m * pow2 (- 1074)"
    using True by (simp only: m n)
  then have "(of_int n :: rat) < of_int m"
    using pow2_pos [of "- 1074"] by (simp only: mult_less_cancel_right_pos)
  then have "n < m" by (simp only: of_int_less_iff)
  then have "1 \<le> m - n" by simp
  then have "(1 :: rat) \<le> of_int (m - n)" by (simp only: of_int_1_le_iff)
  then have "1 * pow2 (- 1074) \<le> of_int (m - n) * pow2 (- 1074)"
    using pow2_pos [of "- 1074"] by (intro mult_right_mono) simp_all
  then have "pow2 (- 1074) \<le> a - b"
    by (simp add: m n left_diff_distrib)
  then have "0 < fl_pos (a - b)" by (rule fl_pos_positive)
  then show ?thesis
    using True by (simp add: fl_def Let_def)
next
  case False
  then show ?thesis
    using fl_pos_nonneg [of "- (a - b)"] by (auto simp: fl_def Let_def)
qed

subsection \<open>Integers\<close>

text \<open>An integer below \<open>2 ^ 53\<close> is a binary64 value.\<close>

lemma fl_pos_of_int:
  assumes "0 < i" and "i < 2 ^ 53"
  shows "fl_pos (of_int i) = of_int i"
proof -
  let ?q = "of_int i :: rat"
  have q: "0 < ?q" using assms(1) by simp
  have "?q < of_int (2 ^ 53)" using assms(2) by (simp only: of_int_less_iff)
  then have "?q < pow2 53" by (simp add: pow2_def)
  then have hi: "expo ?q < 53" using q by (intro expo_less)
  have "pow2 0 \<le> ?q" using assms(1) by (simp add: pow2_def)
  then have "pow2 0 < pow2 (expo ?q + 1)" using expo_bounds [OF q] by simp
  then have lo: "0 \<le> expo ?q" using pow2_less_cancel [of 0 "expo ?q + 1"] by simp
  define k where "k = 52 - expo ?q"
  have k: "0 \<le> k" using hi by (simp add: k_def)
  have u: "ulp ?q = pow2 (- k)" using lo by (simp add: ulp_def k_def)
  have "pow2 k * pow2 (- k) = 1"
    using pow2_add [of k "- k"] by (simp add: pow2_def)
  then have "?q / pow2 (- k) = ?q * pow2 k"
    using pow2_pos [of "- k"] by (simp add: field_simps)
  also have "\<dots> = of_int (i * 2 ^ nat k)" by (simp add: pow2_nat [OF k])
  finally have "of_int (rne (?q / pow2 (- k))) = ?q / pow2 (- k)"
    by (rule of_int_rne_integer)
  then show ?thesis
    using pow2_pos [of "- k"] by (simp add: fl_pos_def u)
qed

lemma fl_of_int:
  assumes "\<bar>i\<bar> < 2 ^ 53"
  shows "fl (of_int i) = Fin (of_int i)"
proof -
  have big: "(of_int j :: rat) < pow2 1024" if "j < 2 ^ 53" for j :: int
  proof -
    have "(of_int j :: rat) < of_int (2 ^ 53)" using that by (simp only: of_int_less_iff)
    also have "\<dots> = pow2 53" by (simp add: pow2_def)
    also have "\<dots> \<le> pow2 1024" by (rule pow2_mono) simp
    finally show ?thesis .
  qed
  consider "i = 0" | "0 < i" | "i < 0" by linarith
  then show ?thesis
  proof cases
    case 1
    then show ?thesis by (simp add: fl_def)
  next
    case 2
    then have "fl_pos (of_int i) = of_int i" using assms by (intro fl_pos_of_int) simp_all
    then show ?thesis using 2 big [of i] assms by (simp add: fl_def Let_def)
  next
    case 3
    then have "fl_pos (of_int (- i)) = of_int (- i)" using assms by (intro fl_pos_of_int) simp_all
    then show ?thesis using 3 big [of "- i"] assms by (simp add: fl_def Let_def)
  qed
qed

lemma fl_numeral: "numeral n < (2 :: int) ^ 53 \<Longrightarrow> fl (numeral n) = Fin (numeral n)"
  using fl_of_int [of "numeral n"] by simp

subsection \<open>The number of a timestamp\<close>

lemma decimal_seconds_range:
  assumes "valid_timestamp t"
  shows "0 \<le> decimal_seconds t" and "decimal_seconds t < 315537897600"
proof -
  have s: "0 \<le> seconds t + 62135596800" "seconds t + 62135596800 \<le> 315537897599"
    and n: "0 \<le> nanoseconds t" "nanoseconds t < 1000000000"
    using assms by (simp_all add: valid_timestamp_def)
  have s': "(0 :: rat) \<le> of_int (seconds t + 62135596800)"
    "(of_int (seconds t + 62135596800) :: rat) \<le> 315537897599"
    using s of_int_le_iff [of "seconds t + 62135596800" 315537897599, where ?'a = rat]
    by (simp_all del: of_int_add)
  have n': "(0 :: rat) \<le> of_int (nanoseconds t)" "(of_int (nanoseconds t) :: rat) < 1000000000"
    using n of_int_less_iff [of "nanoseconds t" 1000000000, where ?'a = rat]
    by simp_all
  from n' have f: "(0 :: rat) \<le> of_int (nanoseconds t) / 1000000000"
    "(of_int (nanoseconds t) :: rat) / 1000000000 < 1"
    by simp_all
  show "0 \<le> decimal_seconds t" using s'(1) f(1) by (simp add: decimal_seconds_def)
  show "decimal_seconds t < 315537897600"
    unfolding decimal_seconds_def using s'(2) f(2) by linarith
qed

text \<open>
  The number of a valid timestamp is finite, and within \<open>2 ^ - 15\<close> seconds of the
  timestamp: its numeral is below \<open>2 ^ 39\<close>, where the binary64 values are at most
  \<open>2 ^ - 14\<close> apart.
\<close>

lemma Timestamp_number_finite:
  assumes "valid_timestamp t"
  shows "\<exists>q. Timestamp_number t = Fin q \<and> \<bar>q - decimal_seconds t\<bar> \<le> pow2 (- 15)"
proof (cases "decimal_seconds t = 0")
  case True
  then show ?thesis
    using pow2_pos [of "- 15"] by (simp add: Timestamp_number_def fl_def less_imp_le)
next
  case False
  let ?d = "decimal_seconds t"
  have d: "0 < ?d" using decimal_seconds_range(1) [OF assms] False by simp
  have "?d < pow2 39"
    using decimal_seconds_range(2) [OF assms] by (simp add: pow2_def)
  then have "expo ?d < 39" using d by (intro expo_less)
  then have "ulp ?d \<le> pow2 (- 14)"
    unfolding ulp_def by (intro pow2_mono) simp
  then have "ulp ?d / 2 \<le> pow2 (- 14) / pow2 1" by (simp add: pow2_def)
  then have u: "ulp ?d / 2 \<le> pow2 (- 15)" by (simp add: pow2_diff)
  have e: "\<bar>fl_pos ?d - ?d\<bar> \<le> pow2 (- 15)"
    using fl_pos_error [of ?d] u by simp
  have "pow2 (- 15) \<le> pow2 0" by (rule pow2_mono) simp
  then have "pow2 (- 15) \<le> 1" by (simp add: pow2_def)
  then have "fl_pos ?d < 315537897601"
    using e decimal_seconds_range(2) [OF assms] by (simp add: abs_le_iff)
  also have "\<dots> \<le> pow2 39" by (simp add: pow2_def)
  also have "\<dots> \<le> pow2 1024" by (rule pow2_mono) simp
  finally have "fl ?d = Fin (fl_pos ?d)"
    using d by (simp add: fl_def Let_def)
  then show ?thesis
    using e by (simp add: Timestamp_number_def)
qed

section \<open>Properties of the payment-intent handler\<close>

lemma js_mul_pos_Fin:
  "0 < a \<Longrightarrow> js_mul (Fin a) (Fin 100) = Fin b \<Longrightarrow> b = fl_pos (a * 100)"
  by (auto simp: fl_def Let_def split: if_splits)

lemma amount_19_995:
  "Math_round (js_mul (json_number (19995 / 1000)) (Fin 100)) = Fin 2000"
proof -
  have "js_mul (json_number (19995 / 1000)) (Fin 100) = Fin (3999 / 2)"
    by (simp only: json_number_def fl_19_995 js_mul.simps fl_19_995_times_100)
  then show ?thesis by simp
qed

lemma amount_1_005:
  "Math_round (js_mul (json_number (1005 / 1000)) (Fin 100)) = Fin 100"
proof -
  have "js_mul (json_number (1005 / 1000)) (Fin 100) = Fin (7072058789855231 / 70368744177664)"
    by (simp only: json_number_def fl_1_005 js_mul.simps fl_1_005_times_100)
  moreover have "Math_round (Fin (7072058789855231 / 70368744177664)) = Fin (of_int 100)"
    by (rule Math_round_eqI) simp_all
  ultimately show ?thesis by simp
qed

lemma amount_0_045:
  "Math_round (js_mul (json_number (45 / 1000)) (Fin 100)) = Fin 5"
proof -
  have "js_mul (json_number (45 / 1000)) (Fin 100) = Fin (9 / 2)"
    by (simp only: json_number_def fl_0_045 js_mul.simps fl_0_045_times_100)
  then show ?thesis by simp
qed

text \<open>
  C5, as the code has it. For every request the provider is called once, with the amount
  \<^verbatim>\<open>Math.round(amount * 100)\<close>. For a positive amount whose product with 100 is finite,
  that is the integer nearest to the binary64 product \<open>b\<close> (a tie going up), and \<open>b\<close>
  is within half a unit in the last place of the exact product. The amount written
  \<^verbatim>\<open>19.995\<close> in the body gives 2000.
\<close>

theorem create_payment_intent_amount:
  "trace (snd (create_payment_intent e r w)) = trace w @ [Stripe_create (intent_params r)]
   \<and> cp_amount (intent_params r) = Math_round (js_mul (pr_amount r) (Fin 100))
   \<and> (\<forall>a b. pr_amount r = Fin a \<and> 0 < a \<and> js_mul (Fin a) (Fin 100) = Fin b \<longrightarrow>
          cp_amount (intent_params r) = Fin (of_int (round b))
          \<and> \<bar>of_int (round b) - b\<bar> \<le> 1 / 2
          \<and> \<bar>b - a * 100\<bar> \<le> ulp (a * 100) / 2)
   \<and> (pr_amount r = json_number (19995 / 1000) \<longrightarrow> cp_amount (intent_params r) = Fin 2000)"
proof -
  have 1: "trace (snd (create_payment_intent e r w)) = trace w @ [Stripe_create (intent_params r)]"
    by (simp add: create_payment_intent_def trace_emit Let_def split: sum.splits)
  have 2: "cp_amount (intent_params r) = Math_round (js_mul (pr_amount r) (Fin 100))"
    by (simp add: intent_params_def)
  have 3: "cp_amount (intent_params r) = Fin (of_int (round b))
          \<and> \<bar>of_int (round b) - b\<bar> \<le> 1 / 2
          \<and> \<bar>b - a * 100\<bar> \<le> ulp (a * 100) / 2"
    if "pr_amount r = Fin a \<and> 0 < a \<and> js_mul (Fin a) (Fin 100) = Fin b" for a b
  proof -
    from that have b: "b = fl_pos (a * 100)"
      by (intro js_mul_pos_Fin) simp_all
    have "Math_round (js_mul (pr_amount r) (Fin 100)) = Fin (of_int (round b))"
      using that by (simp add: round_def del: js_mul.simps)
    then show ?thesis
      using fl_pos_error [of "a * 100"] of_int_round_abs_le [of b] by (simp add: 2 b)
  qed
  have 4: "pr_amount r = json_number (19995 / 1000) \<longrightarrow> cp_amount (intent_params r) = Fin 2000"
  proof
    assume "pr_amount r = json_number (19995 / 1000)"
    then show "cp_amount (intent_params r) = Fin 2000"
      unfolding 2 by (simp only: amount_19_995)
  qed
  from 1 2 3 4 show ?thesis by blast
qed

theorem create_payment_intent_amount_witness:
  "pr_amount exact_request = Fin (5628092159329567 / 281474976710656)
   \<and> (0 :: rat) < 5628092159329567 / 281474976710656
   \<and> js_mul (Fin (5628092159329567 / 281474976710656)) (Fin 100) = Fin (3999 / 2)
   \<and> pr_amount exact_request = json_number (19995 / 1000)
   \<and> cp_amount (intent_params exact_request) = Fin 2000
   \<and> cp_amount (intent_params exact_request) = Fin (of_int (round (3999 / 2 :: rat)))
   \<and> \<bar>3999 / 2 - 5628092159329567 / 281474976710656 * 100\<bar>
       \<le> ulp (5628092159329567 / 281474976710656 * 100) / 2
   \<and> trace (snd (create_payment_intent demo_env exact_request demo_world))
       = [Stripe_create (intent_params exact_request)]"
proof -
  have a: "pr_amount exact_request = json_number (19995 / 1000)"
    by (simp only: exact_request_def payment_request.simps)
  have b: "pr_amount exact_request = Fin (5628092159329567 / 281474976710656)"
    by (simp only: a json_number_def fl_19_995)
  have c: "js_mul (Fin (5628092159329567 / 281474976710656)) (Fin 100) = Fin (3999 / 2)"
    by (simp only: js_mul.simps fl_19_995_times_100)
  have d: "trace demo_world = []"
    by (simp add: demo_world_def)
  have p: "(0 :: rat) < 5628092159329567 / 281474976710656"
    by simp
  note t = create_payment_intent_amount [of demo_env exact_request demo_world]
  from t a have 1: "cp_amount (intent_params exact_request) = Fin 2000"
    by blast
  from t b p c have 2: "cp_amount (intent_params exact_request) = Fin (of_int (round (3999 / 2 :: rat)))
      \<and> \<bar>3999 / 2 - 5628092159329567 / 281474976710656 * 100\<bar>
          \<le> ulp (5628092159329567 / 281474976710656 * 100) / 2"
    by blast
  from t have 3: "trace (snd (create_payment_intent demo_env exact_request demo_world))
       = [Stripe_create (intent_params exact_request)]"
    by (simp add: d)
  from b p c a 1 2 3 show ?thesis
    by (intro conjI) blast+
qed

text \<open>
  C5 as stated, with the exact product, fails. The amount written \<^verbatim>\<open>0.045\<close> is received as
  the binary64 value just below it, whose exact product with 100 is below 4.5 and has 4 as
  its nearest integer; the binary64 product is 4.5 and the handler sends 5. The amount
  written \<^verbatim>\<open>1.005\<close> sends 100, while \<open>1.005 * 100 = 100.5\<close> rounds to 101.
\<close>

theorem create_payment_intent_double_rounding:
  "pr_amount tiny_request = Fin (3242591731706757 / 72057594037927936)
   \<and> round (3242591731706757 / 72057594037927936 * 100 :: rat) = 4
   \<and> cp_amount (intent_params tiny_request) = Fin 5
   \<and> pr_amount cheap_request = json_number (1005 / 1000)
   \<and> round (1005 / 1000 * 100 :: rat) = 101
   \<and> cp_amount (intent_params cheap_request) = Fin 100"
proof -
  have 1: "pr_amount tiny_request = Fin (3242591731706757 / 72057594037927936)"
    by (simp only: tiny_request_def payment_request.simps json_number_def fl_0_045)
  have 2: "round (3242591731706757 / 72057594037927936 * 100 :: rat) = 4"
    by (simp add: round_def floor_eq_iff)
  have 3: "cp_amount (intent_params tiny_request) = Fin 5"
    by (simp only: intent_params_def create_params.simps tiny_request_def payment_request.simps
        amount_0_045)
  have 4: "pr_amount cheap_request = json_number (1005 / 1000)"
    by (simp only: cheap_request_def payment_request.simps)
  have 5: "round (1005 / 1000 * 100 :: rat) = 101"
    by (simp add: round_def)
  have 6: "cp_amount (intent_params cheap_request) = Fin 100"
    by (simp only: intent_params_def create_params.simps cheap_request_def payment_request.simps
        amount_1_005)
  from 1 2 3 4 5 6 show ?thesis by (intro conjI)
qed

text \<open>
  C8. The handler validates nothing: whatever the amount (negative and zero included) the
  provider is called, once, with the converted amount; when the provider answers with an
  error the response is 500 with that error's message, otherwise it is 200 with the client
  secret.
\<close>

theorem create_payment_intent_no_validation:
  "trace (snd (create_payment_intent e r w)) = trace w @ [Stripe_create (intent_params r)]
   \<and> cp_amount (intent_params r) = Math_round (js_mul (pr_amount r) (Fin 100))
   \<and> (\<forall>msg. stripe_create e (intent_params r) = Inl msg \<longrightarrow>
          fst (create_payment_intent e r w) = \<lparr>status_code = 500, body = ErrorBody msg\<rparr>)
   \<and> (\<forall>paymentIntent. stripe_create e (intent_params r) = Inr paymentIntent \<longrightarrow>
          fst (create_payment_intent e r w)
            = \<lparr>status_code = 200, body = ClientSecret (client_secret paymentIntent)\<rparr>)"
  by (simp add: create_payment_intent_def trace_emit Let_def intent_params_def split: sum.splits)

theorem create_payment_intent_no_validation_witness:
  "intent_params refund_request
     = \<lparr>cp_amount = Fin (- 500), cp_currency = ''eur'', cp_orderId = None\<rparr>
   \<and> stripe_create demo_env (intent_params refund_request) = Inl ''Invalid positive integer''
   \<and> trace (snd (create_payment_intent demo_env refund_request demo_world))
       = [Stripe_create (intent_params refund_request)]
   \<and> fst (create_payment_intent demo_env refund_request demo_world)
       = \<lparr>status_code = 500, body = ErrorBody ''Invalid positive integer''\<rparr>
   \<and> intent_params free_request
       = \<lparr>cp_amount = Fin 0, cp_currency = ''usd'', cp_orderId = None\<rparr>
   \<and> stripe_create demo_env (intent_params free_request) = Inl ''Invalid positive integer''
   \<and> trace (snd (create_payment_intent demo_env free_request demo_world))
       = [Stripe_create (intent_params free_request)]
   \<and> fst (create_payment_intent demo_env free_request demo_world)
       = \<lparr>status_code = 500, body = ErrorBody ''Invalid positive integer''\<rparr>"
proof -
  have "Math_round (Fin (- 500)) = Fin (of_int (- 500))"
    by (rule Math_round_eqI) simp_all
  then have p1: "intent_params refund_request
      = \<lparr>cp_amount = Fin (- 500), cp_currency = ''eur'', cp_orderId = None\<rparr>"
    by (simp add: intent_params_def refund_request_def fl_minus_500 del: Math_round.simps)
  have "Math_round (Fin 0) = Fin (of_int 0)"
    by (rule Math_round_eqI) simp_all
  then have p2: "intent_params free_request
      = \<lparr>cp_amount = Fin 0, cp_currency = ''usd'', cp_orderId = None\<rparr>"
    by (simp add: intent_params_def free_request_def fl_Fin_0 del: Math_round.simps)
  have a: "stripe_create demo_env (intent_params refund_request) = Inl ''Invalid positive integer''"
    by (simp add: p1 demo_env_def demo_create_def)
  have b: "stripe_create demo_env (intent_params free_request) = Inl ''Invalid positive integer''"
    by (simp add: p2 demo_env_def demo_create_def)
  have d: "trace demo_world = []"
    by (simp add: demo_world_def)
  note t1 = create_payment_intent_no_validation [of demo_env refund_request demo_world]
  note t2 = create_payment_intent_no_validation [of demo_env free_request demo_world]
  have r1: "trace (snd (create_payment_intent demo_env refund_request demo_world))
       = [Stripe_create (intent_params refund_request)]"
    using t1 by (simp add: d)
  have r2: "fst (create_payment_intent demo_env refund_request demo_world)
       = \<lparr>status_code = 500, body = ErrorBody ''Invalid positive integer''\<rparr>"
    using t1 a by blast
  have r3: "trace (snd (create_payment_intent demo_env free_request demo_world))
       = [Stripe_create (intent_params free_request)]"
    using t2 by (simp add: d)
  have r4: "fst (create_payment_intent demo_env free_request demo_world)
       = \<lparr>status_code = 500, body = ErrorBody ''Invalid positive integer''\<rparr>"
    using t2 b by blast
  from p1 a r1 r2 p2 b r3 r4 show ?thesis by (intro conjI)
qed

section \<open>Properties of the analytics handler\<close>

lemma get_analytics_admin_eq:
  assumes "verifyIdToken e (bearer_token r) = Inr uid"
    and "doc_get (users w) uid = Some u"
    and "role u = Some ''admin''"
  shows "get_analytics e r w =
     (\<lparr>status_code = 200, body = Analytics (summary (orders w) (products w) (users w))\<rparr>,
      w\<lparr>trace := trace w @ [Verify_token (bearer_token r), Doc_get ''users'' uid,
                          Collection_get ''orders'', Collection_get ''products'',
                          Collection_get ''users'']\<rparr>)"
  using assms
  by (simp add: get_analytics_def users_doc_get_def orders_get_def products_get_def
      users_get_def emit_def Let_def)



lemma demo_tokens:
  "bearer_token user_request = Some ''tok_user''"
  "bearer_token gone_request = Some ''tok_gone''"
  "bearer_token admin_request = Some ''tok_admin''"
  by (simp_all add: bearer_token_def user_request_def gone_request_def admin_request_def
      split_def at_index_def)

lemma demo_users:
  "doc_get (users demo_world) ''u1'' = Some \<lparr>email = ''root@shop.example'', role = Some ''admin''\<rparr>"
  "doc_get (users demo_world) ''u2'' = Some \<lparr>email = ''kim@shop.example'', role = Some ''customer''\<rparr>"
  "doc_get (users demo_world) ''u9'' = None"
  "users busy_world = users demo_world"
  "users close_world = users demo_world"
  by (simp_all add: demo_world_def busy_world_def close_world_def doc_get_def)


subsection \<open>The recent orders\<close>

lemma set_insert_by: "set (insert_by cmp x xs) = insert x (set xs)"
  by (induction xs) auto

lemma mset_insert_by: "mset (insert_by cmp x xs) = add_mset x (mset xs)"
  by (induction xs) simp_all

lemma mset_js_sort: "mset (js_sort cmp xs) = mset xs"
  by (induction xs) (simp_all add: js_sort_def mset_insert_by)

lemma set_js_sort: "set (js_sort cmp xs) = set xs"
  using mset_js_sort [of cmp xs] by (metis set_mset_mset)

text \<open>The number of a valid creation time is finite, and near the time.\<close>

lemma seen_Fin:
  assumes "valid_timestamp (createdAt (snd x))"
  shows "Timestamp_number (createdAt (snd x)) = Fin (seen x)"
    and "\<bar>seen x - decimal_seconds (createdAt (snd x))\<bar> \<le> pow2 (- 15)"
  using Timestamp_number_finite [OF assms] by (auto simp: seen_def)

text \<open>
  The comparison puts \<open>x\<close> after \<open>y\<close> exactly when the number of the creation time
  of \<open>y\<close> is the greater one.
\<close>

lemma by_createdAt_desc_positive:
  assumes "valid_timestamp (createdAt (snd x))" and "valid_timestamp (createdAt (snd y))"
  shows "is_positive (by_createdAt_desc x y) \<longleftrightarrow> seen x < seen y"
proof -
  have x: "fl (decimal_seconds (createdAt (snd x))) = Fin (seen x)"
    using seen_Fin(1) [OF assms(1)] by (simp add: Timestamp_number_def)
  have y: "fl (decimal_seconds (createdAt (snd y))) = Fin (seen y)"
    using seen_Fin(1) [OF assms(2)] by (simp add: Timestamp_number_def)
  have "by_createdAt_desc x y = fl (seen y - seen x)"
    by (simp add: by_createdAt_desc_def js_sub_def seen_Fin(1) [OF assms(1)]
        seen_Fin(1) [OF assms(2)])
  then show ?thesis
    using fl_diff_positive [OF y x] by simp
qed

lemma sorted_insert_by:
  assumes "valid_timestamp (createdAt (snd x))"
    and "\<forall>y \<in> set xs. valid_timestamp (createdAt (snd y))"
    and "sorted_wrt newer_first xs"
  shows "sorted_wrt newer_first (insert_by by_createdAt_desc x xs)"
  using assms(2,3)
proof (induction xs)
  case Nil
  show ?case by simp
next
  case (Cons y ys)
  have p: "is_positive (by_createdAt_desc x y) \<longleftrightarrow> seen x < seen y"
    using assms(1) Cons.prems(1) by (intro by_createdAt_desc_positive) simp_all
  show ?case
  proof (cases "seen x < seen y")
    case True
    then show ?thesis
      using Cons by (auto simp: p set_insert_by newer_first_def)
  next
    case False
    then show ?thesis
      using Cons.prems by (fastforce simp: p newer_first_def)
  qed
qed

lemma sorted_js_sort:
  "\<forall>y \<in> set xs. valid_timestamp (createdAt (snd y)) \<Longrightarrow>
   sorted_wrt newer_first (js_sort by_createdAt_desc xs)"
proof (induction xs)
  case Nil
  show ?case by (simp add: js_sort_def)
next
  case (Cons x xs)
  have "sorted_wrt newer_first (insert_by by_createdAt_desc x (js_sort by_createdAt_desc xs))"
    using Cons by (intro sorted_insert_by) (simp_all add: set_js_sort)
  then show ?case by (simp add: js_sort_def)
qed

lemma recent_eq: "recent docs = take 10 (js_sort by_createdAt_desc docs)"
  by (simp add: recent_def)

lemma sorted_wrt_take_drop:
  "sorted_wrt P xs \<Longrightarrow> x \<in> set (take n xs) \<Longrightarrow> y \<in> set (drop n xs) \<Longrightarrow> P x y"
  using sorted_wrt_append [of P "take n xs" "drop n xs"] by simp

text \<open>Orders in descending order of their numbers are in order of time up to \<open>2 ^ - 14\<close> seconds.\<close>

lemma newer_first_close:
  assumes "valid_timestamp (createdAt (snd x))" and "valid_timestamp (createdAt (snd y))"
    and "newer_first x y"
  shows "decimal_seconds (createdAt (snd y)) \<le> decimal_seconds (createdAt (snd x)) + pow2 (- 14)"
proof -
  have "pow2 (- 14) = pow2 (- 15) * pow2 1"
    using pow2_add [of "- 15" 1] by simp
  then have h: "pow2 (- 14) = pow2 (- 15) + pow2 (- 15)"
    by (simp add: pow2_def)
  show ?thesis
    using seen_Fin(2) [OF assms(1)] seen_Fin(2) [OF assms(2)] assms(3)
    unfolding h newer_first_def by (simp add: abs_le_iff)
qed

text \<open>
  C4, as the code has it. For an admin caller and any orders whose creation times are
  valid timestamps, the handler answers 200 with analytics whose \<^verbatim>\<open>recentOrders\<close> are
  \<open>min 10 n\<close> of the \<open>n\<close> orders, so at most 10, in descending order of the binary64
  number that the comparison makes of the creation time (\<open>seen\<close>). In terms of the
  creation times themselves they are in descending order up to \<open>2 ^ - 14\<close> seconds: an
  order comes before another only if it is at most that much older. They are the most
  recent ones in the same sense: together with the orders left out they are all the
  orders, and none left out has a greater number than one kept.
\<close>

theorem recentOrders_sorted:
  assumes "verifyIdToken e (bearer_token r) = Inr uid"
    and "doc_get (users w) uid = Some u"
    and "role u = Some ''admin''"
    and "list_all (\<lambda>x. valid_timestamp (createdAt (snd x))) (orders w)"
  shows "\<exists>a. fst (get_analytics e r w) = \<lparr>status_code = 200, body = Analytics a\<rparr>
    \<and> sorted_wrt (\<lambda>x y. seen y \<le> seen x) (recentOrders a)
    \<and> sorted_wrt (\<lambda>x y. decimal_seconds (createdAt (snd y))
                          \<le> decimal_seconds (createdAt (snd x)) + pow2 (- 14)) (recentOrders a)
    \<and> length (recentOrders a) \<le> 10
    \<and> length (recentOrders a) = min 10 (length (orders w))
    \<and> (\<exists>older. mset (recentOrders a @ older) = mset (orders w)
          \<and> (\<forall>x \<in> set (recentOrders a). \<forall>y \<in> set older. seen y \<le> seen x))"
proof -
  let ?s = "js_sort by_createdAt_desc (orders w)"
  let ?a = "summary (orders w) (products w) (users w)"
  have v: "\<forall>y \<in> set (orders w). valid_timestamp (createdAt (snd y))"
    using assms(4) by (simp add: list_all_iff)
  have r: "recentOrders ?a = take 10 ?s"
    by (simp add: summary_def recent_eq)
  have s: "sorted_wrt newer_first ?s"
    using v by (rule sorted_js_sort)
  have vs: "valid_timestamp (createdAt (snd y))" if "y \<in> set (take 10 ?s)" for y
    using that v in_set_takeD [of y 10 ?s] by (simp add: set_js_sort)
  have len: "length ?s = length (orders w)"
    using mset_js_sort [of by_createdAt_desc "orders w"] by (metis size_mset)
  have 1: "fst (get_analytics e r w) = \<lparr>status_code = 200, body = Analytics ?a\<rparr>"
    by (simp add: get_analytics_admin_eq [OF assms(1,2,3)])
  have t: "sorted_wrt newer_first (take 10 ?s)"
    using s by (rule sorted_wrt_take)
  have 2: "sorted_wrt (\<lambda>x y. seen y \<le> seen x) (recentOrders ?a)"
    using t by (simp add: r newer_first_def [abs_def])
  have 3: "sorted_wrt (\<lambda>x y. decimal_seconds (createdAt (snd y))
                          \<le> decimal_seconds (createdAt (snd x)) + pow2 (- 14)) (recentOrders ?a)"
    unfolding r
    by (rule sorted_wrt_mono_rel [OF _ t]) (simp add: newer_first_close vs)
  have 4: "length (recentOrders ?a) = min 10 (length (orders w))"
    by (simp add: r len min.commute)
  have 5: "mset (recentOrders ?a @ drop 10 ?s) = mset (orders w)"
    by (simp only: r append_take_drop_id mset_js_sort)
  have 6: "\<forall>x \<in> set (recentOrders ?a). \<forall>y \<in> set (drop 10 ?s). seen y \<le> seen x"
    using sorted_wrt_take_drop [OF s, of _ 10] by (auto simp: r newer_first_def)
  from 1 2 3 4 5 6 show ?thesis
    by (intro exI [of _ ?a] conjI exI [of _ "drop 10 ?s"]) simp_all
qed

lemma order_at_number:
  assumes "\<bar>t\<bar> < 1000"
  shows "Timestamp_number (createdAt (order_at t v)) = Fin (of_int (63835596800 + t))"
proof -
  have "\<bar>63835596800 + t\<bar> < 2 ^ 53"
    using assms by simp
  then have "fl (of_int (63835596800 + t)) = Fin (of_int (63835596800 + t))"
    by (rule fl_of_int)
  then show ?thesis
    by (simp add: Timestamp_number_def decimal_seconds_def order_at_def add.commute)
qed

lemma order_at_cmp:
  assumes "\<bar>s\<bar> < 1000" and "\<bar>t\<bar> < 1000"
  shows "by_createdAt_desc (k, order_at s v) (k', order_at t v') = Fin (of_int (t - s))"
proof -
  have "\<bar>t - s\<bar> < 2 ^ 53"
    using assms by simp
  then have "fl (of_int (t - s)) = Fin (of_int (t - s))"
    by (rule fl_of_int)
  then show ?thesis
    by (simp add: by_createdAt_desc_def js_sub_def order_at_number [OF assms(1)]
        order_at_number [OF assms(2)])
qed

lemma busy_recent:
  "map fst (recent (orders busy_world))
     = [''o05'', ''o08'', ''o10'', ''o03'', ''o12'', ''o06'', ''o11'', ''o01'', ''o09'', ''o02'']"
  by (simp add: busy_world_def recent_def js_sort_def order_at_cmp)

lemma order_at_valid: "\<bar>t\<bar> < 1000 \<Longrightarrow> valid_timestamp (createdAt (order_at t v))"
  by (auto simp: valid_timestamp_def order_at_def)

lemma busy_valid: "list_all (\<lambda>x. valid_timestamp (createdAt (snd x))) (orders busy_world)"
  by (simp add: busy_world_def order_at_valid)

theorem recentOrders_sorted_witness:
  "verifyIdToken demo_env (bearer_token admin_request) = Inr ''u1''
   \<and> map_option role (doc_get (users busy_world) ''u1'') = Some (Some ''admin'')
   \<and> list_all (\<lambda>x. valid_timestamp (createdAt (snd x))) (orders busy_world)
   \<and> length (orders busy_world) = 12
   \<and> (\<exists>a. fst (get_analytics demo_env admin_request busy_world)
            = \<lparr>status_code = 200, body = Analytics a\<rparr>
          \<and> sorted_wrt (\<lambda>x y. seen y \<le> seen x) (recentOrders a)
          \<and> length (recentOrders a) = 10)
   \<and> map fst (recent (orders busy_world))
       = [''o05'', ''o08'', ''o10'', ''o03'', ''o12'', ''o06'', ''o11'', ''o01'', ''o09'', ''o02'']"
proof -
  have a: "verifyIdToken demo_env (bearer_token admin_request) = Inr ''u1''"
    by (simp add: demo_tokens demo_env_def demo_verify_def)
  have b: "doc_get (users busy_world) ''u1'' = Some \<lparr>email = ''root@shop.example'', role = Some ''admin''\<rparr>"
    by (simp add: demo_users)
  have c: "role \<lparr>email = ''root@shop.example'', role = Some ''admin''\<rparr> = Some ''admin''"
    by simp
  have n: "length (orders busy_world) = 12"
    by (simp add: busy_world_def)
  from recentOrders_sorted [OF a b c busy_valid] obtain x where
    x: "fst (get_analytics demo_env admin_request busy_world) = \<lparr>status_code = 200, body = Analytics x\<rparr>"
      "sorted_wrt (\<lambda>x y. seen y \<le> seen x) (recentOrders x)"
      "length (recentOrders x) = min 10 (length (orders busy_world))"
    by blast
  from x(3) have "length (recentOrders x) = 10"
    by (simp add: n)
  with x(1,2) have "\<exists>a. fst (get_analytics demo_env admin_request busy_world)
            = \<lparr>status_code = 200, body = Analytics a\<rparr>
          \<and> sorted_wrt (\<lambda>x y. seen y \<le> seen x) (recentOrders a)
          \<and> length (recentOrders a) = 10"
    by blast
  then show ?thesis
    using a n busy_recent busy_valid by (simp add: b)
qed

text \<open>
  C4 as stated, with the creation times themselves, fails. Two orders created within the
  same 8 microseconds get the same number; the comparison gives 0 and the sort leaves them
  as they were read. Here the order read first is the older one, by a microsecond, and
  \<^verbatim>\<open>recentOrders\<close> lists it first.
\<close>

lemma fl_late: "fl (63835596800 + 1000 / 1000000000) = Fin 63835596800"
  by (rule trans [OF fl_normal [where p = 35 and m = 8367059343769600]])
     (simp_all add: pow2_def)

lemma close_numbers:
  "Timestamp_number (createdAt early) = Fin 63835596800"
  "Timestamp_number (createdAt late) = Fin 63835596800"
proof -
  show "Timestamp_number (createdAt early) = Fin 63835596800"
    using order_at_number [of 0] by (simp add: early_def)
  have "decimal_seconds (createdAt late) = 63835596800 + 1000 / 1000000000"
    by (simp add: late_def decimal_seconds_def)
  then show "Timestamp_number (createdAt late) = Fin 63835596800"
    by (simp only: Timestamp_number_def fl_late)
qed

theorem recentOrders_same_number:
  "verifyIdToken demo_env (bearer_token admin_request) = Inr ''u1''
   \<and> map_option role (doc_get (users close_world) ''u1'') = Some (Some ''admin'')
   \<and> orders close_world = [(''o1'', early), (''o2'', late)]
   \<and> createdAt early = \<lparr>seconds = 1700000000, nanoseconds = 0\<rparr>
   \<and> createdAt late = \<lparr>seconds = 1700000000, nanoseconds = 1000\<rparr>
   \<and> valid_timestamp (createdAt early) \<and> valid_timestamp (createdAt late)
   \<and> decimal_seconds (createdAt early) < decimal_seconds (createdAt late)
   \<and> Timestamp_number (createdAt early) = Fin 63835596800
   \<and> Timestamp_number (createdAt late) = Fin 63835596800
   \<and> by_createdAt_desc (''o1'', early) (''o2'', late) = Fin 0
   \<and> fst (get_analytics demo_env admin_request close_world)
       = \<lparr>status_code = 200,
          body = Analytics \<lparr>totalOrders = 2, totalProducts = 2, totalUsers = 2,
                            totalRevenue = Num (Fin 20),
                            recentOrders = [(''o1'', early), (''o2'', late)]\<rparr>\<rparr>"
proof -
  have a: "verifyIdToken demo_env (bearer_token admin_request) = Inr ''u1''"
    by (simp add: demo_tokens demo_env_def demo_verify_def)
  have b: "doc_get (users close_world) ''u1'' = Some \<lparr>email = ''root@shop.example'', role = Some ''admin''\<rparr>"
    by (simp add: demo_users)
  have c: "role \<lparr>email = ''root@shop.example'', role = Some ''admin''\<rparr> = Some ''admin''"
    by simp
  have o: "orders close_world = [(''o1'', early), (''o2'', late)]"
    by (simp add: close_world_def)
  have t: "createdAt early = \<lparr>seconds = 1700000000, nanoseconds = 0\<rparr>"
    "createdAt late = \<lparr>seconds = 1700000000, nanoseconds = 1000\<rparr>"
    by (simp_all add: early_def late_def order_at_def)
  have v: "valid_timestamp (createdAt early)" "valid_timestamp (createdAt late)"
    by (simp_all add: t valid_timestamp_def)
  have d: "decimal_seconds (createdAt early) < decimal_seconds (createdAt late)"
    by (simp add: t decimal_seconds_def)
  have cmp: "by_createdAt_desc (''o1'', early) (''o2'', late) = Fin 0"
    by (simp add: by_createdAt_desc_def js_sub_def close_numbers fl_Fin_0)
  have rec: "recent (orders close_world) = [(''o1'', early), (''o2'', late)]"
    by (simp add: o recent_def js_sort_def cmp)
  have tot: "total early = Some (Num (Fin 10))" "total late = Some (Num (Fin 10))"
    by (simp_all add: early_def late_def order_at_def)
  have rev: "revenue (orders close_world) = Num (Fin 20)"
    by (simp add: o revenue_def js_plus_def tot fl_numeral)
  have n: "length (products close_world) = 2" "length (users close_world) = 2"
    by (simp_all add: close_world_def demo_world_def)
  have g: "fst (get_analytics demo_env admin_request close_world)
       = \<lparr>status_code = 200,
          body = Analytics \<lparr>totalOrders = 2, totalProducts = 2, totalUsers = 2,
                            totalRevenue = Num (Fin 20),
                            recentOrders = [(''o1'', early), (''o2'', late)]\<rparr>\<rparr>"
    by (simp add: get_analytics_admin_eq [OF a b c] summary_def rec rev n) (simp add: o)
  have b': "map_option role (doc_get (users close_world) ''u1'') = Some (Some ''admin'')"
    by (simp add: b)
  from a b' o t v d close_numbers cmp g show ?thesis
    by (intro conjI)
qed

subsection \<open>The revenue\<close>

lemma is_binary64_fl: "is_binary64 (fl q)"
  by (cases "fl q") (simp_all add: fl_idem)

lemma is_binary64_js_add: "is_binary64 (js_add x y)"
  by (cases x; cases y) (simp_all add: is_binary64_fl)

lemma js_add_zero: "is_binary64 s \<Longrightarrow> js_add s (Fin 0) = s"
  by (cases s) simp_all

lemma js_plus_Num: "js_plus (Num x) (Num y) = Num (js_add x y)"
  by (simp add: js_plus_def)

text \<open>A total that is not truthy counts as the number 0.\<close>

lemma total_or_zero_falsy: "\<not> truthy v \<Longrightarrow> total_or_zero (Some v) = Num (Fin 0)"
  by simp

text \<open>
  While the totals are numbers, or falsy, the sum stays a number: the binary64 sum of the
  truthy totals, in the order of the documents.
\<close>

lemma revenue_fold:
  "is_binary64 s \<Longrightarrow> list_all (\<lambda>d. numeric (total (snd d))) docs \<Longrightarrow>
   foldl (\<lambda>sum doc. js_plus sum (total_or_zero (total (snd doc)))) (Num s) docs
     = Num (foldl js_add s (truthy_totals docs))"
proof (induction docs arbitrary: s)
  case Nil
  show ?case by simp
next
  case (Cons d ds)
  have rest: "list_all (\<lambda>d. numeric (total (snd d))) ds"
    using Cons.prems(2) by simp
  show ?case
  proof (cases "total (snd d)")
    case None
    then show ?thesis
      using Cons.IH [OF Cons.prems(1) rest] by (simp add: js_plus_Num js_add_zero Cons.prems(1))
  next
    case (Some v)
    show ?thesis
    proof (cases "\<exists>n. v = Num n \<and> truthy_number n")
      case True
      then obtain n where n: "v = Num n" "truthy_number n" by blast
      show ?thesis
        using Cons.IH [OF is_binary64_js_add rest, of s n] by (simp add: Some n js_plus_Num)
    next
      case False
      have "numeric (Some v)" using Cons.prems(2) Some by simp
      with False have f: "\<not> truthy v" by (cases v) auto
      have t: "truthy_totals (d # ds) = truthy_totals ds"
        using False by (cases v) (auto simp: Some)
      show ?thesis
        using Cons.IH [OF Cons.prems(1) rest] f
        by (simp add: Some t js_plus_Num js_add_zero Cons.prems(1) del: truthy_totals.simps)
    qed
  qed
qed

lemma revenue_truthy:
  "list_all (\<lambda>d. numeric (total (snd d))) docs \<Longrightarrow>
   revenue docs = Num (foldl js_add (Fin 0) (truthy_totals docs))"
  unfolding revenue_def by (rule revenue_fold) (simp_all add: fl_Fin_0)

text \<open>
  C9, as the code has it. For an admin caller the handler answers 200 whatever the
  \<^verbatim>\<open>total\<close> fields hold, a missing one included. A total that is missing or falsy (null,
  zero, NaN, false, the empty string) counts as the number 0. When every total is a number
  or falsy, \<^verbatim>\<open>totalRevenue\<close> is the sum of the truthy totals, added in binary64 arithmetic
  in the order of the documents.
\<close>

theorem totalRevenue_truthy:
  assumes "verifyIdToken e (bearer_token r) = Inr uid"
    and "doc_get (users w) uid = Some u"
    and "role u = Some ''admin''"
  shows "\<exists>a. fst (get_analytics e r w) = \<lparr>status_code = 200, body = Analytics a\<rparr>
    \<and> (list_all (\<lambda>d. numeric (total (snd d))) (orders w) \<longrightarrow>
         totalRevenue a = Num (foldl js_add (Fin 0) (truthy_totals (orders w))))
    \<and> total_or_zero None = Num (Fin 0)
    \<and> (\<forall>v. \<not> truthy v \<longrightarrow> total_or_zero (Some v) = Num (Fin 0))"
  by (simp add: get_analytics_admin_eq [OF assms] summary_def revenue_truthy
      del: total_or_zero.simps add: total_or_zero.simps(1) total_or_zero_falsy)

lemma busy_totals: "foldl js_add (Fin 0) (truthy_totals (orders busy_world)) = Fin (59 / 2)"
proof -
  have "truthy_totals (orders busy_world) = [Fin 10, Fin (39 / 2)]"
    by (simp add: busy_world_def order_at_def)
  then show ?thesis
    by (simp add: fl_10 fl_59_2)
qed

lemma busy_numeric: "list_all (\<lambda>d. numeric (total (snd d))) (orders busy_world)"
  by (simp add: busy_world_def order_at_def)

theorem totalRevenue_truthy_witness:
  "verifyIdToken demo_env (bearer_token admin_request) = Inr ''u1''
   \<and> map_option role (doc_get (users busy_world) ''u1'') = Some (Some ''admin'')
   \<and> map (\<lambda>d. total (snd d)) (take 8 (orders busy_world))
       = [Some (Num (Fin 10)), None, Some Null, Some (Num (Fin 0)), Some (Num NaN),
          Some (Num (Fin (39 / 2))), Some (Str []), Some (Boolean False)]
   \<and> list_all (\<lambda>d. numeric (total (snd d))) (orders busy_world)
   \<and> (\<exists>a. fst (get_analytics demo_env admin_request busy_world)
            = \<lparr>status_code = 200, body = Analytics a\<rparr>
          \<and> totalRevenue a = Num (Fin (59 / 2)))
   \<and> \<not> truthy (Num NaN) \<and> total_or_zero (Some (Num NaN)) = Num (Fin 0)
   \<and> \<not> truthy (Str []) \<and> total_or_zero (Some (Str [])) = Num (Fin 0)"
proof -
  have a: "verifyIdToken demo_env (bearer_token admin_request) = Inr ''u1''"
    by (simp add: demo_tokens demo_env_def demo_verify_def)
  have b: "doc_get (users busy_world) ''u1'' = Some \<lparr>email = ''root@shop.example'', role = Some ''admin''\<rparr>"
    by (simp add: demo_users)
  have c: "role \<lparr>email = ''root@shop.example'', role = Some ''admin''\<rparr> = Some ''admin''"
    by simp
  have t: "map (\<lambda>d. total (snd d)) (take 8 (orders busy_world))
       = [Some (Num (Fin 10)), None, Some Null, Some (Num (Fin 0)), Some (Num NaN),
          Some (Num (Fin (39 / 2))), Some (Str []), Some (Boolean False)]"
    by (simp add: busy_world_def order_at_def)
  have f: "\<not> truthy (Num NaN)" "\<not> truthy (Str [])"
    by simp_all
  from totalRevenue_truthy [OF a b c] obtain x where
    x: "fst (get_analytics demo_env admin_request busy_world) = \<lparr>status_code = 200, body = Analytics x\<rparr>"
    "list_all (\<lambda>d. numeric (total (snd d))) (orders busy_world) \<longrightarrow>
       totalRevenue x = Num (foldl js_add (Fin 0) (truthy_totals (orders busy_world)))"
    "\<forall>v. \<not> truthy v \<longrightarrow> total_or_zero (Some v) = Num (Fin 0)"
    by blast
  from x(2) busy_numeric have "totalRevenue x = Num (Fin (59 / 2))"
    by (simp add: busy_totals)
  with x(1) have 1: "\<exists>a. fst (get_analytics demo_env admin_request busy_world)
            = \<lparr>status_code = 200, body = Analytics a\<rparr>
          \<and> totalRevenue a = Num (Fin (59 / 2))"
    by blast
  from x(3) f have 2: "total_or_zero (Some (Num NaN)) = Num (Fin 0)"
    "total_or_zero (Some (Str [])) = Num (Fin 0)"
    by blast+
  have 3: "map_option role (doc_get (users busy_world) ''u1'') = Some (Some ''admin'')"
    by (simp add: b)
  from a 3 t busy_numeric 1 f(1) 2(1) f(2) 2(2) show ?thesis
    by (intro conjI)
qed

text \<open>
  C9 as stated fails when a total is a string, which the order handler stores as the body
  gives it. From \<open>demo_world\<close> an order with the total \<^verbatim>\<open>"114.00"\<close> and then one with the
  total 0 are placed, both answered 200. In the revenue \<^verbatim>\<open>0 + "114.00"\<close> is the string
  \<^verbatim>\<open>"0114.00"\<close>, and the zero total of the second order, counted as 0, appends
  \<^verbatim>\<open>"0"\<close>: \<^verbatim>\<open>totalRevenue\<close> is the string \<^verbatim>\<open>"0114.000"\<close>, not a sum.
\<close>

lemma string_order:
  "new_order demo_env string_request
     = Some \<lparr>userId = ''u2'', items = [], total = Some (Str ''114.00''),
             shippingAddress = ''1 Main St'', paymentIntentId = ''pi_1'',
             order_status = ''confirmed'', createdAt = server_time demo_env,
             updatedAt = server_time demo_env\<rparr>"
  by (simp add: new_order_def string_request_def empty_request_def paid_request_def)

lemma gift_order:
  "new_order demo_env gift_request
     = Some \<lparr>userId = ''u2'', items = [], total = Some (Num (Fin 0)),
             shippingAddress = ''1 Main St'', paymentIntentId = ''pi_1'',
             order_status = ''confirmed'', createdAt = server_time demo_env,
             updatedAt = server_time demo_env\<rparr>"
  by (simp add: new_order_def gift_request_def empty_request_def paid_request_def)

lemma text_world_run:
  "fst (process_order demo_env string_request demo_world)
     = \<lparr>status_code = 200, body = OrderPlaced ''0'' ''success''\<rparr>"
  "fst (process_order demo_env gift_request (snd (process_order demo_env string_request demo_world)))
     = \<lparr>status_code = 200, body = OrderPlaced ''00'' ''success''\<rparr>"
  "orders text_world
     = [(''0'', \<lparr>userId = ''u2'', items = [], total = Some (Str ''114.00''),
                  shippingAddress = ''1 Main St'', paymentIntentId = ''pi_1'',
                  order_status = ''confirmed'', createdAt = server_time demo_env,
                  updatedAt = server_time demo_env\<rparr>),
        (''00'', \<lparr>userId = ''u2'', items = [], total = Some (Num (Fin 0)),
                   shippingAddress = ''1 Main St'', paymentIntentId = ''pi_1'',
                   order_status = ''confirmed'', createdAt = server_time demo_env,
                   updatedAt = server_time demo_env\<rparr>)]"
  "users text_world = users demo_world"
  "products text_world = products demo_world"
proof -
  let ?d1 = "\<lparr>userId = ''u2'', items = [], total = Some (Str ''114.00''),
             shippingAddress = ''1 Main St'', paymentIntentId = ''pi_1'',
             order_status = ''confirmed'', createdAt = server_time demo_env,
             updatedAt = server_time demo_env\<rparr>"
  let ?d2 = "\<lparr>userId = ''u2'', items = [], total = Some (Num (Fin 0)),
             shippingAddress = ''1 Main St'', paymentIntentId = ''pi_1'',
             order_status = ''confirmed'', createdAt = server_time demo_env,
             updatedAt = server_time demo_env\<rparr>"
  let ?w1 = "snd (process_order demo_env string_request demo_world)"
  have a: "stripe_retrieve demo_env (req_paymentIntentId string_request) = Inr paid_intent"
    "stripe_retrieve demo_env (req_paymentIntentId gift_request) = Inr paid_intent"
    by (simp_all add: demo_env_def demo_retrieve_def string_request_def gift_request_def
        empty_request_def paid_request_def)
  have b: "pi_status paid_intent = ''succeeded''"
    by (simp add: paid_intent_def)
  have u: "valid_id (userId ?d1)" "valid_id (userId ?d2)"
    by (simp_all add: demo_ids)
  have i: "list_all (\<lambda>it. valid_id (productId it) \<and> doc_exists (products w) (productId it)) (items ?d1)"
    "list_all (\<lambda>it. valid_id (productId it) \<and> doc_exists (products w) (productId it)) (items ?d2)"
    for w
    by simp_all
  note first = process_order_paid_eq [OF a(1) b string_order u(1) i(1), of demo_world]
  note second = process_order_paid_eq [OF a(2) b gift_order u(2) i(2), of ?w1]
  have o: "orders demo_world = []"
    by (simp add: demo_world_def)
  have k1: "auto_id ([] :: order_doc collection) = ''0''"
    by (simp add: auto_id_def)
  have o1: "orders ?w1 = [(''0'', ?d1)]"
    by (simp add: first o k1)
  have k2: "auto_id (orders ?w1) = ''00''"
    by (simp add: o1 auto_id_def)
  show "fst (process_order demo_env string_request demo_world)
     = \<lparr>status_code = 200, body = OrderPlaced ''0'' ''success''\<rparr>"
    by (simp add: first o k1)
  show "fst (process_order demo_env gift_request ?w1)
     = \<lparr>status_code = 200, body = OrderPlaced ''00'' ''success''\<rparr>"
    by (simp add: second k2)
  show "orders text_world = [(''0'', ?d1), (''00'', ?d2)]"
    unfolding text_world_def by (simp add: second k2) (simp add: o1)
  have "users ?w1 = users demo_world"
    by (simp add: first)
  then show "users text_world = users demo_world"
    unfolding text_world_def by (simp add: second)
  have "products ?w1 = products demo_world"
    by (simp add: first)
  then show "products text_world = products demo_world"
    unfolding text_world_def by (simp add: second)
qed

lemma revenue_text:
  "map (total \<circ> snd) docs = [Some (Str ''114.00''), Some (Num (Fin 0))] \<Longrightarrow>
   revenue docs = Str ''0114.000''"
  by (auto simp: revenue_def js_plus_def)

lemma server_time_number: "Timestamp_number (server_time demo_env) = Fin 63835596800"
  using order_at_number [of 0] by (simp add: order_at_def demo_env_def)

theorem totalRevenue_string_total:
  "req_total string_request = Some (Str ''114.00'') \<and> req_total gift_request = Some (Num (Fin 0))
   \<and> fst (process_order demo_env string_request demo_world)
     = \<lparr>status_code = 200, body = OrderPlaced ''0'' ''success''\<rparr>
   \<and> fst (process_order demo_env gift_request (snd (process_order demo_env string_request demo_world)))
     = \<lparr>status_code = 200, body = OrderPlaced ''00'' ''success''\<rparr>
   \<and> text_world
     = snd (process_order demo_env gift_request (snd (process_order demo_env string_request demo_world)))
   \<and> map fst (orders text_world) = [''0'', ''00'']
   \<and> map (total \<circ> snd) (orders text_world) = [Some (Str ''114.00''), Some (Num (Fin 0))]
   \<and> truthy (Str ''114.00'')
   \<and> verifyIdToken demo_env (bearer_token admin_request) = Inr ''u1''
   \<and> map_option role (doc_get (users text_world) ''u1'') = Some (Some ''admin'')
   \<and> fst (get_analytics demo_env admin_request text_world)
       = \<lparr>status_code = 200,
          body = Analytics \<lparr>totalOrders = 2, totalProducts = 2, totalUsers = 2,
                            totalRevenue = Str ''0114.000'',
                            recentOrders = orders text_world\<rparr>\<rparr>"
proof -
  have a: "verifyIdToken demo_env (bearer_token admin_request) = Inr ''u1''"
    by (simp add: demo_tokens demo_env_def demo_verify_def)
  have b: "doc_get (users text_world) ''u1'' = Some \<lparr>email = ''root@shop.example'', role = Some ''admin''\<rparr>"
    by (simp add: text_world_run(4) demo_users)
  have c: "role \<lparr>email = ''root@shop.example'', role = Some ''admin''\<rparr> = Some ''admin''"
    by simp
  have q: "req_total string_request = Some (Str ''114.00'')"
    "req_total gift_request = Some (Num (Fin 0))"
    by (simp_all add: string_request_def gift_request_def)
  have k: "map fst (orders text_world) = [''0'', ''00'']"
    by (simp add: text_world_run(3))
  have t: "map (total \<circ> snd) (orders text_world) = [Some (Str ''114.00''), Some (Num (Fin 0))]"
    by (simp add: text_world_run(3))
  have rev: "revenue (orders text_world) = Str ''0114.000''"
    using t by (rule revenue_text)
  have rec: "recent (orders text_world) = orders text_world"
    by (simp add: text_world_run(3) recent_def js_sort_def by_createdAt_desc_def js_sub_def
        server_time_number fl_Fin_0)
  have n: "length (orders text_world) = 2" "length (products text_world) = 2"
    "length (users text_world) = 2"
    by (simp_all add: text_world_run(3,4,5)) (simp_all add: demo_world_def)
  have g: "fst (get_analytics demo_env admin_request text_world)
       = \<lparr>status_code = 200,
          body = Analytics \<lparr>totalOrders = 2, totalProducts = 2, totalUsers = 2,
                            totalRevenue = Str ''0114.000'',
                            recentOrders = orders text_world\<rparr>\<rparr>"
    by (simp add: get_analytics_admin_eq [OF a b c] summary_def rev rec n)
  have 2: "map_option role (doc_get (users text_world) ''u1'') = Some (Some ''admin'')"
    by (simp add: b)
  have 3: "truthy (Str ''114.00'')"
    by simp
  from q text_world_run(1,2) text_world_def k t 3 a 2 g show ?thesis
    by (intro conjI)
qed

section \<open>Properties of the search-index trigger\<close>

lemma toLowerCase_Nil: "toLowerCase s = [] \<longleftrightarrow> s = []" "[] = toLowerCase s \<longleftrightarrow> s = []"
  by (auto simp: toLowerCase_def)

lemma filter_Boolean_Some:
  "filter_Boolean (map (\<lambda>s. Some (f s)) xs) = filter (\<lambda>s. s \<noteq> []) (map f xs)"
  by (induction xs) simp_all

lemma filter_Boolean_append: "filter_Boolean (xs @ ys) = filter_Boolean xs @ filter_Boolean ys"
  by (induction xs) (simp_all split: option.splits)

lemma filter_Boolean_option:
  "filter_Boolean [map_option toLowerCase v] = map toLowerCase (filter (\<lambda>s. s \<noteq> []) (present v))"
  by (cases v) (simp_all add: present_def toLowerCase_Nil)

lemma filter_toLowerCase:
  "filter (\<lambda>s. s \<noteq> []) (map toLowerCase xs) = map toLowerCase (filter (\<lambda>s. s \<noteq> []) xs)"
  by (induction xs) (simp_all add: toLowerCase_Nil)

text \<open>
  For a product whose texts are ASCII strings, the search terms the trigger computes are
  those the specification describes.
\<close>

lemma searchTerms_spec: "ascii_product product \<Longrightarrow> searchTerms product = spec_terms product"
proof -
  have "searchTerms product =
      filter_Boolean [map_option toLowerCase (name product)]
      @ filter_Boolean [map_option toLowerCase (category product)]
      @ filter_Boolean [map_option toLowerCase (description product)]
      @ filter_Boolean (map (\<lambda>tag. Some (toLowerCase tag))
          (case tags product of None \<Rightarrow> [] | Some ts \<Rightarrow> ts))"
    unfolding searchTerms_def
    by (simp only: filter_Boolean_append [symmetric] append_Cons append_Nil)
  then show ?thesis
    by (simp only: filter_Boolean_option filter_Boolean_Some filter_toLowerCase spec_terms_def
        filter_append map_append)
qed

lemma filter_Boolean_nonempty: "[] \<notin> set (filter_Boolean vs)"
  by (induction vs) (simp_all split: option.splits)

lemma searchTerms_nonempty: "[] \<notin> set (searchTerms product)"
  unfolding searchTerms_def by (rule filter_Boolean_nonempty)

text \<open>Lower-casing an ASCII string leaves an ASCII string without the letters \<open>A\<close>..\<open>Z\<close>.\<close>

lemma lower_char_ascii:
  assumes "(of_char c :: nat) < 128"
  shows "(of_char (lower_char c) :: nat) < 128"
    and "\<not> (65 \<le> (of_char (lower_char c) :: nat) \<and> (of_char (lower_char c) :: nat) \<le> 90)"
  using assms by (auto simp: lower_char_def Let_def)

lemma toLowerCase_ascii:
  "ascii s \<Longrightarrow>
   ascii (toLowerCase s) \<and> length (toLowerCase s) = length s
   \<and> list_all (\<lambda>c. \<not> (65 \<le> (of_char c :: nat) \<and> (of_char c :: nat) \<le> 90)) (toLowerCase s)"
proof (induction s)
  case Nil
  show ?case by (simp add: ascii_def toLowerCase_def)
next
  case (Cons c s)
  have c: "(of_char c :: nat) < 128" and s: "ascii s"
    using Cons.prems by (simp_all add: ascii_def)
  show ?case
    using Cons.IH [OF s] lower_char_ascii [OF c] by (simp add: ascii_def toLowerCase_def)
qed

text \<open>A deleted product: the index document with its id is deleted.\<close>

lemma updateSearchIndex_deleted:
  "after ch = None \<Longrightarrow>
   fst (updateSearchIndex e k ch w) = Inr ()
   \<and> doc_get (search_index (snd (updateSearchIndex e k ch w))) k = None
   \<and> trace (snd (updateSearchIndex e k ch w)) = trace w @ [Doc_delete ''search_index'' k]"
  by (simp add: updateSearchIndex_def search_index_delete_def trace_emit emit_fields doc_get_delete)

text \<open>
  A created or updated product with a name, a category and a first image, all its texts
  ASCII: the index document is written, with the search terms of the specification.
\<close>

lemma updateSearchIndex_written:
  assumes "after ch = Some product"
    and "name product \<noteq> None" and "category product \<noteq> None"
    and "images product = Some (i # is)"
    and "ascii_product product"
  shows "fst (updateSearchIndex e k ch w) = Inr ()
   \<and> doc_get (search_index (snd (updateSearchIndex e k ch w))) k = Some (index_entry e k product)
   \<and> si_searchTerms (index_entry e k product) = spec_terms product
   \<and> [] \<notin> set (si_searchTerms (index_entry e k product))"
proof -
  have "\<not> has_undefined (index_entry e k product)"
    using assms by (simp add: has_undefined_def index_entry_def at_index_def)
  then show ?thesis
    using assms(1) searchTerms_nonempty [of product]
    by (simp add: updateSearchIndex_def search_index_set_def emit_fields doc_get_def
        update_conv' index_entry_def searchTerms_spec [OF assms(5)])
qed

lemma mug_terms: "searchTerms mug = [''mug'', ''kitchen'', ''a'', ''b'']"
  by code_simp

lemma lamp_terms: "searchTerms lamp = [''lamp'', ''home'', ''desk lamp'']"
  by code_simp

text \<open>
  A created or updated product for which the data has an undefined field: the store client
  refuses the data and the index stays as it was.
\<close>

lemma updateSearchIndex_refused:
  assumes "after ch = Some product" and "has_undefined (index_entry e k product)"
  shows "fst (updateSearchIndex e k ch w) = Inl undefined_value
   \<and> search_index (snd (updateSearchIndex e k ch w)) = search_index w"
  using assms
  by (simp add: updateSearchIndex_def search_index_set_def emit_fields ignoreUndefinedProperties_def)

lemma no_first_image:
  "images product = Some [] \<Longrightarrow> si_image (index_entry e k product) = None"
  by (simp add: index_entry_def at_index_def)

text \<open>
  C7 fails on the code for a product without a first image (or without a name or a
  category): the data handed to \<^verbatim>\<open>set\<close> then has an \<^verbatim>\<open>undefined\<close> field, the store client
  refuses it, the trigger ends with that error and no index document is written. Here the
  product \<open>lamp\<close>, whose \<^verbatim>\<open>images\<close> is the empty list, is created.
\<close>

theorem updateSearchIndex_no_image:
  "images lamp = Some []
   \<and> si_image (index_entry demo_env ''p2'' lamp) = None
   \<and> si_searchTerms (index_entry demo_env ''p2'' lamp) = [''lamp'', ''home'', ''desk lamp'']
   \<and> fst (updateSearchIndex demo_env ''p2'' \<lparr>before = None, after = Some lamp\<rparr> demo_world)
       = Inl undefined_value
   \<and> search_index (snd (updateSearchIndex demo_env ''p2'' \<lparr>before = None, after = Some lamp\<rparr> demo_world))
       = []"
proof -
  have 1: "images lamp = Some []"
    by (simp add: lamp_def)
  have 2: "si_image (index_entry demo_env ''p2'' lamp) = None"
    using 1 by (rule no_first_image)
  have 3: "si_searchTerms (index_entry demo_env ''p2'' lamp) = [''lamp'', ''home'', ''desk lamp'']"
    by (simp add: index_entry_def lamp_terms)
  have 4: "has_undefined (index_entry demo_env ''p2'' lamp)"
    using 2 by (simp add: has_undefined_def)
  have 5: "after \<lparr>before = None, after = Some lamp\<rparr> = Some lamp"
    by simp
  have 6: "search_index demo_world = []"
    by (simp add: demo_world_def)
  from updateSearchIndex_refused [OF 5 4, of demo_world] 1 2 3 show ?thesis
    by (simp add: 6)
qed

end
